theory Spec2Isabelle
  imports Complex_Main "HOL-Library.Product_Lexorder"
begin

section \<open>Values held by a table\<close>

text \<open>
  \<^verbatim>\<open>App.py\<close> is glue over pandas and statsmodels. A \<^verbatim>\<open>float64\<close> value is modelled by
  a real number, the two infinities or \<^verbatim>\<open>NaN\<close> (rounding and overflow are not modelled); \<^verbatim>\<open>NaN\<close> is the
  null marker of pandas. A cell of a sheet is a float or a text (an empty cell is
  \<^verbatim>\<open>NaN\<close>). A parsed date is a timestamp or \<^verbatim>\<open>NaT\<close>.
\<close>

datatype float64 = Finite real | PosInf | NegInf | NaN

datatype cell = Float float64 | Text string

datatype stamp = NaT | Stamp int

text \<open>
  The errors that the functions raise. \<open>ParseError\<close> is the error of \<^verbatim>\<open>pd.to_datetime\<close> on a
  value that it cannot parse; the others have the names that Python, pandas, numpy and
  statsmodels give them.
\<close>

datatype error =
  ParseError | TypeError | ZeroDivisionError | DataError | ValueError | LinAlgError | IndexError

text \<open>\<^verbatim>\<open>isnull\<close> / \<^verbatim>\<open>notna\<close> of pandas: only \<^verbatim>\<open>NaN\<close> is null; infinities and texts are not.\<close>

fun isnull :: "cell \<Rightarrow> bool" where
  "isnull (Float NaN) = True"
| "isnull (Float (Finite x)) = False"
| "isnull (Float PosInf) = False"
| "isnull (Float NegInf) = False"
| "isnull (Text s) = False"


fun is_text :: "cell \<Rightarrow> bool" where
  "is_text (Text s) = True"
| "is_text (Float f) = False"


text \<open>The comparison \<^verbatim>\<open><\<close> of two timestamps in pandas: any comparison with \<^verbatim>\<open>NaT\<close> is false.\<close>

fun stamp_less :: "stamp \<Rightarrow> stamp \<Rightarrow> bool" where
  "stamp_less (Stamp a) (Stamp b) = (a < b)"
| "stamp_less NaT b = False"
| "stamp_less (Stamp a) NaT = False"

section \<open>The merged table\<close>

text \<open>
  The columns of the data frame after \<^verbatim>\<open>pd.merge\<close> and the renaming of the two price
  columns, and the five derived columns that \<^verbatim>\<open>load_data\<close> adds. Tables carry the
  columns that the code reads; a sheet that lacks one of them (a \<^verbatim>\<open>KeyError\<close>) is
  outside the model.
\<close>

record merged_row =
  Date :: stamp
  Gold_Close :: cell
  Silver_Close :: cell
  Gold_Returns :: cell
  Silver_Returns :: cell
  India_CPI :: cell
  DXY :: cell
  US10Y_Yield :: cell
  GoogleTrends_Gold :: cell
  GoogleTrends_Silver :: cell

record row = merged_row +
  Gold_Volatility :: cell
  Silver_Volatility :: cell
  Gold_to_DXY_Corr :: cell
  Gold_to_Yield_Corr :: cell
  Gold_Silver_Ratio :: cell

section \<open>Rolling regression: \<^verbatim>\<open>calculate_rolling_betas\<close>\<close>

text \<open>One dictionary appended to \<^verbatim>\<open>rolling_results\<close>; a missing coefficient (\<^verbatim>\<open>None\<close>) is \<^verbatim>\<open>NaN\<close>.\<close>

record point =
  point_Date :: stamp
  Inflation_Beta :: float64
  DXY_Beta :: float64
  US10Y_Yield_Beta :: float64
  Sentiment_Beta :: float64

text \<open>A slice of a data frame is a list of named columns; \<^verbatim>\<open>model.params\<close> is a list of named values.\<close>

type_synonym frame = "(string \<times> cell list) list"

type_synonym params = "(string \<times> float64) list"

text \<open>
  \<^verbatim>\<open>sm.OLS(y, X).fit()\<close> is code of statsmodels, not of this program: it is a parameter
  \<open>fit\<close>, a function of the window that raises (\<open>Inl\<close>) or returns the fitted parameters.
\<close>

type_synonym fitter = "cell list \<Rightarrow> frame \<Rightarrow> error + params"

text \<open>\<^verbatim>\<open>df.dropna(subset=[...])\<close>: keep the rows with no null in the listed columns.\<close>

definition dropna :: "('r \<Rightarrow> cell) list \<Rightarrow> 'r list \<Rightarrow> 'r list" where
  "dropna cols df = filter (\<lambda>r. list_all (\<lambda>col. \<not> isnull (col r)) cols) df"

definition required_columns :: "('a merged_row_scheme \<Rightarrow> cell) list" where
  "required_columns = [Gold_Returns, India_CPI, DXY, US10Y_Yield, GoogleTrends_Gold]"

definition predictors :: "(string \<times> ('a merged_row_scheme \<Rightarrow> cell)) list" where
  "predictors = [(''India_CPI'', India_CPI), (''DXY'', DXY),
                 (''US10Y_Yield'', US10Y_Yield), (''GoogleTrends_Gold'', GoogleTrends_Gold)]"

text \<open>\<^verbatim>\<open>s.iloc[a:b]\<close> for \<open>0 \<le> a \<le> b\<close>: positions \<open>a\<close> to \<open>b - 1\<close>, clipped to the length.\<close>

definition iloc :: "nat \<Rightarrow> nat \<Rightarrow> 'a list \<Rightarrow> 'a list" where
  "iloc a b xs = take (b - a) (drop a xs)"

text \<open>
  \<^verbatim>\<open>sm.add_constant(X)\<close> with its default \<^verbatim>\<open>has_constant='skip'\<close>: a column of ones named
  \<^verbatim>\<open>const\<close> is put in front, unless some column is already a non-zero constant
  (\<^verbatim>\<open>np.ptp(s) == 0.0 and np.any(s != 0.0)\<close>, false when it raises or meets a non-finite value).
\<close>

fun finite_value :: "cell \<Rightarrow> real option" where
  "finite_value (Float (Finite x)) = Some x"
| "finite_value (Float PosInf) = None"
| "finite_value (Float NegInf) = None"
| "finite_value (Float NaN) = None"
| "finite_value (Text s) = None"

definition safe_is_const :: "cell list \<Rightarrow> bool" where
  "safe_is_const s =
     (case those (map finite_value s) of
        None \<Rightarrow> False
      | Some [] \<Rightarrow> False
      | Some (v # vs) \<Rightarrow> list_all (\<lambda>u. u = v) vs \<and> v \<noteq> 0)"

definition nobs :: "frame \<Rightarrow> nat" where
  "nobs X = (case X of [] \<Rightarrow> 0 | (name, s) # rest \<Rightarrow> length s)"

definition add_constant :: "frame \<Rightarrow> frame" where
  "add_constant X =
     (if list_ex (\<lambda>(name, s). safe_is_const s) X then X
      else (''const'', replicate (nobs X) (Float (Finite 1))) # X)"

text \<open>\<^verbatim>\<open>X.isnull().values.any()\<close> and \<^verbatim>\<open>y.isnull().values.any()\<close>.\<close>

definition frame_isnull_any :: "frame \<Rightarrow> bool" where
  "frame_isnull_any X = list_ex (\<lambda>(name, s). list_ex isnull s) X"

definition series_isnull_any :: "cell list \<Rightarrow> bool" where
  "series_isnull_any y = list_ex isnull y"

text \<open>\<^verbatim>\<open>model.params.get(name, None)\<close>.\<close>

definition params_get :: "params \<Rightarrow> string \<Rightarrow> float64" where
  "params_get ps name = (case map_of ps name of Some v \<Rightarrow> v | None \<Rightarrow> NaN)"

text \<open>The two slices taken at index \<open>i\<close> (lines 49 to 51).\<close>

definition window_y :: "nat \<Rightarrow> 'a merged_row_scheme list \<Rightarrow> nat \<Rightarrow> cell list" where
  "window_y window df i = iloc (i - window) i (map Gold_Returns df)"

definition window_X :: "nat \<Rightarrow> 'a merged_row_scheme list \<Rightarrow> nat \<Rightarrow> frame" where
  "window_X window df i =
     add_constant (map (\<lambda>(name, col). (name, iloc (i - window) i (map col df))) predictors)"

text \<open>
  The body of the \<^verbatim>\<open>try\<close> block (lines 57 to 64): the fit, then the dictionary; reading
  \<^verbatim>\<open>df['Date'].iloc[i]\<close> out of range raises inside the block as well.
\<close>

definition try_fit :: "fitter \<Rightarrow> nat \<Rightarrow> 'a merged_row_scheme list \<Rightarrow> nat \<Rightarrow> error + point" where
  "try_fit fit window df i =
     (case fit (window_y window df i) (window_X window df i) of
        Inl e \<Rightarrow> Inl e
      | Inr model_params \<Rightarrow>
          if i < length df then
            Inr \<lparr> point_Date = Date (df ! i),
                  Inflation_Beta = params_get model_params ''India_CPI'',
                  DXY_Beta = params_get model_params ''DXY'',
                  US10Y_Yield_Beta = params_get model_params ''US10Y_Yield'',
                  Sentiment_Beta = params_get model_params ''GoogleTrends_Gold'' \<rparr>
          else Inl IndexError)"

text \<open>
  One pass of the \<^verbatim>\<open>for\<close> loop (lines 49 to 66), for an index \<open>i \<ge> window\<close>: \<^verbatim>\<open>continue\<close>
  leaves \<^verbatim>\<open>rolling_results\<close> as it is, and the bare \<^verbatim>\<open>except\<close> catches every error.
\<close>

definition loop_body ::
  "fitter \<Rightarrow> nat \<Rightarrow> 'a merged_row_scheme list \<Rightarrow> nat \<Rightarrow> point list \<Rightarrow> point list" where
  "loop_body fit window df i rolling_results =
     (if frame_isnull_any (window_X window df i) \<or> series_isnull_any (window_y window df i)
      then rolling_results
      else (case try_fit fit window df i of
              Inr p \<Rightarrow> rolling_results @ [p]
            | Inl e \<Rightarrow> rolling_results))"

text \<open>The windows that emit no point: a null in \<open>X\<close> or \<open>y\<close>, or a fit that raises.\<close>

definition window_skipped :: "fitter \<Rightarrow> nat \<Rightarrow> 'a merged_row_scheme list \<Rightarrow> nat \<Rightarrow> bool" where
  "window_skipped fit window df i =
     (frame_isnull_any (window_X window df i) \<or> series_isnull_any (window_y window df i) \<or>
      isl (fit (window_y window df i) (window_X window df i)))"

text \<open>
  A fit that returns parameters with a value that is not null for each of the four
  predictors, and a dictionary whose four coefficients are not null.
\<close>

definition predictor_names :: "string list" where
  "predictor_names = [''India_CPI'', ''DXY'', ''US10Y_Yield'', ''GoogleTrends_Gold'']"

definition fit_complete :: "fitter \<Rightarrow> nat \<Rightarrow> 'a merged_row_scheme list \<Rightarrow> nat \<Rightarrow> bool" where
  "fit_complete fit window df i =
     (case fit (window_y window df i) (window_X window df i) of
        Inl e \<Rightarrow> False
      | Inr model_params \<Rightarrow> list_all (\<lambda>name. params_get model_params name \<noteq> NaN) predictor_names)"

definition point_complete :: "point \<Rightarrow> bool" where
  "point_complete p =
     (Inflation_Beta p \<noteq> NaN \<and> DXY_Beta p \<noteq> NaN \<and> US10Y_Yield_Beta p \<noteq> NaN \<and>
      Sentiment_Beta p \<noteq> NaN)"

text \<open>The loop over a list of indices, starting from the empty \<^verbatim>\<open>rolling_results\<close>.\<close>

definition rolling_loop ::
  "fitter \<Rightarrow> nat \<Rightarrow> 'a merged_row_scheme list \<Rightarrow> nat list \<Rightarrow> point list" where
  "rolling_loop fit window df indices = fold (loop_body fit window df) indices []"

text \<open>
  \<^verbatim>\<open>calculate_rolling_betas(df, window=180)\<close>: the window is a natural number (a
  negative window is outside the model).
\<close>

definition filtered :: "'a merged_row_scheme list \<Rightarrow> 'a merged_row_scheme list" where
  "filtered df = dropna required_columns df"

definition calculate_rolling_betas ::
  "fitter \<Rightarrow> nat \<Rightarrow> 'a merged_row_scheme list \<Rightarrow> point list" where
  "calculate_rolling_betas fit window df0 =
     (let df = filtered df0 in rolling_loop fit window df [window ..< length df])"

subsection \<open>The loop in a library that keeps a state\<close>

text \<open>
  \<^verbatim>\<open>sm.OLS(y, X).fit()\<close> runs in an interpreter whose libraries keep a state from one call
  to the next (the generator of random numbers, the buffers and threads of the linear
  algebra kernel). A fit that reads and changes such a state returns its result and the
  state that it leaves.
\<close>

type_synonym 'w stateful_fitter = "'w \<Rightarrow> cell list \<Rightarrow> frame \<Rightarrow> (error + params) \<times> 'w"

text \<open>The dictionary appended at lines 58 to 64.\<close>

definition result_row :: "'a merged_row_scheme list \<Rightarrow> nat \<Rightarrow> params \<Rightarrow> point" where
  "result_row df i model_params =
     \<lparr> point_Date = Date (df ! i),
       Inflation_Beta = params_get model_params ''India_CPI'',
       DXY_Beta = params_get model_params ''DXY'',
       US10Y_Yield_Beta = params_get model_params ''US10Y_Yield'',
       Sentiment_Beta = params_get model_params ''GoogleTrends_Gold'' \<rparr>"

text \<open>
  One pass of the loop (lines 49 to 66) on \<^verbatim>\<open>rolling_results\<close> and the state of the library:
  a window with a null does not reach the fit and leaves the state as it is; a fit that
  raises, and a date out of range, leave \<^verbatim>\<open>rolling_results\<close> as it is.
\<close>

definition run_body ::
  "'w stateful_fitter \<Rightarrow> nat \<Rightarrow> 'a merged_row_scheme list \<Rightarrow> nat \<Rightarrow> point list \<times> 'w
     \<Rightarrow> point list \<times> 'w" where
  "run_body fit window df i state =
     (case state of (rolling_results, w) \<Rightarrow>
        if frame_isnull_any (window_X window df i) \<or> series_isnull_any (window_y window df i)
        then (rolling_results, w)
        else (case fit w (window_y window df i) (window_X window df i) of
                (Inl e, w') \<Rightarrow> (rolling_results, w')
              | (Inr model_params, w') \<Rightarrow>
                  if i < length df then (rolling_results @ [result_row df i model_params], w')
                  else (rolling_results, w')))"

text \<open>
  A run of \<^verbatim>\<open>calculate_rolling_betas\<close> that starts in the state \<open>w\<close>: the points returned and
  the state that the run leaves.
\<close>

definition run_rolling_betas ::
  "'w stateful_fitter \<Rightarrow> nat \<Rightarrow> 'a merged_row_scheme list \<Rightarrow> 'w \<Rightarrow> point list \<times> 'w" where
  "run_rolling_betas fit window df0 w =
     (let df = filtered df0 in fold (run_body fit window df) [window ..< length df] ([], w))"

subsection \<open>What statsmodels does with a window\<close>

text \<open>
  Used in the examples only. \<^verbatim>\<open>sm.OLS\<close> refuses data of dtype \<^verbatim>\<open>object\<close> with a
  \<^verbatim>\<open>ValueError\<close>, and a window that holds a text has that dtype; on floats it hands the
  response and the columns to a least-squares kernel, a parameter that may fail
  (\<^verbatim>\<open>LinAlgError\<close>), and names the coefficients after the columns of \<open>X\<close>.
\<close>

type_synonym solver = "float64 list \<Rightarrow> float64 list list \<Rightarrow> float64 list option"

fun float_value :: "cell \<Rightarrow> float64 option" where
  "float_value (Float f) = Some f"
| "float_value (Text s) = None"

definition OLS_fit :: "solver \<Rightarrow> fitter" where
  "OLS_fit solve y X =
     (case those (map float_value y) of
        None \<Rightarrow> Inl ValueError
      | Some endog \<Rightarrow>
          (case those (map (\<lambda>(name, s). those (map float_value s)) X) of
             None \<Rightarrow> Inl ValueError
           | Some exog \<Rightarrow>
               (case solve endog exog of
                  None \<Rightarrow> Inl LinAlgError
                | Some beta \<Rightarrow> Inr (zip (map fst X) beta))))"

text \<open>A kernel that returns the zero vector, one coefficient for each column.\<close>

definition zero_solver :: solver where
  "zero_solver endog exog = Some (replicate (length exog) (Finite 0))"

text \<open>Rows without a text in the columns that the regression reads.\<close>

definition numeric_row :: "'a merged_row_scheme \<Rightarrow> bool" where
  "numeric_row r =
     (\<not> is_text (Gold_Returns r) \<and> \<not> is_text (India_CPI r) \<and> \<not> is_text (DXY r) \<and>
      \<not> is_text (US10Y_Yield r) \<and> \<not> is_text (GoogleTrends_Gold r))"

subsection \<open>Example tables\<close>

definition sample_row :: "stamp \<Rightarrow> cell \<Rightarrow> merged_row" where
  "sample_row d cpi =
     \<lparr> Date = d,
       Gold_Close = Float (Finite 1900),
       Silver_Close = Float (Finite 24),
       Gold_Returns = Float (Finite 2),
       Silver_Returns = Float (Finite 3),
       India_CPI = cpi,
       DXY = Float (Finite 104),
       US10Y_Yield = Float (Finite 4),
       GoogleTrends_Gold = Float (Finite 50),
       GoogleTrends_Silver = Float (Finite 40) \<rparr>"

text \<open>Rows on consecutive days, all numeric.\<close>

definition daily_rows :: "nat \<Rightarrow> merged_row list" where
  "daily_rows n = map (\<lambda>k. sample_row (Stamp (int k)) (Float (Finite 5))) [0 ..< n]"


definition seeded_fit :: "nat stateful_fitter" where
  "seeded_fit seed y X = (if even seed then OLS_fit zero_solver y X else Inl LinAlgError, seed + 2)"

text \<open>
  The same rows with one text in \<^verbatim>\<open>India_CPI\<close>, a column that \<^verbatim>\<open>load_data\<close> does not
  coerce, in the row at position \<open>pos\<close>.
\<close>

definition rows_with_text :: "nat \<Rightarrow> nat \<Rightarrow> merged_row list" where
  "rows_with_text n pos =
     map (\<lambda>k. sample_row (Stamp (int k)) (if k = pos then Text ''7,2'' else Float (Finite 5)))
         [0 ..< n]"

text \<open>The same rows with one null in \<^verbatim>\<open>India_CPI\<close>, in the row at position \<open>pos\<close>.\<close>

definition rows_with_null :: "nat \<Rightarrow> nat \<Rightarrow> merged_row list" where
  "rows_with_null n pos =
     map (\<lambda>k. sample_row (Stamp (int k)) (if k = pos then Float NaN else Float (Finite 5)))
         [0 ..< n]"

text \<open>Two rows for each day, as an inner join gives when a sheet repeats its dates.\<close>

definition doubled_rows :: "nat \<Rightarrow> merged_row list" where
  "doubled_rows n = map (\<lambda>k. sample_row (Stamp (int (k div 2))) (Float (Finite 5))) [0 ..< n]"

section \<open>Loading and merging: \<^verbatim>\<open>load_data\<close>\<close>

text \<open>Sequencing of steps that may raise: the first error ends the function.\<close>

definition and_then :: "error + 'a \<Rightarrow> ('a \<Rightarrow> error + 'b) \<Rightarrow> error + 'b" where
  "and_then r f = (case r of Inl e \<Rightarrow> Inl e | Inr v \<Rightarrow> f v)"

text \<open>The rows of the two sheets as \<^verbatim>\<open>pd.read_excel\<close> returns them.\<close>

record gold_silver_row =
  gs_Date :: cell
  gs_Gold_Price :: cell
  gs_Silver_Price :: cell
  gs_Gold_Returns :: cell
  gs_Silver_Returns :: cell

record macro_row =
  macro_Date :: cell
  macro_India_CPI :: cell
  macro_DXY :: cell
  macro_US10Y_Yield :: cell
  macro_GoogleTrends_Gold :: cell
  macro_GoogleTrends_Silver :: cell

text \<open>
  The parsers of pandas are parameters. The date parser sees the whole column (pandas
  infers one format for it) and the value to convert; \<open>None\<close> means that the value cannot
  be parsed. The number parser reads a text; \<open>None\<close> means that it is not a number.
\<close>

type_synonym date_parser = "cell list \<Rightarrow> cell \<Rightarrow> stamp option"

type_synonym float_parser = "string \<Rightarrow> float64 option"

text \<open>\<^verbatim>\<open>pd.to_datetime(column)\<close> (default \<^verbatim>\<open>errors='raise'\<close>): one bad value fails the call.\<close>

definition to_datetime :: "date_parser \<Rightarrow> cell list \<Rightarrow> error + stamp list" where
  "to_datetime parse_date col =
     (case those (map (parse_date col) col) of
        None \<Rightarrow> Inl ParseError
      | Some dates \<Rightarrow> Inr dates)"

text \<open>
  \<^verbatim>\<open>pd.merge(gold_silver, macro, on='Date', how='inner')\<close>: one row for each pair of a left
  and a right row with equal keys (two \<^verbatim>\<open>NaT\<close> keys are equal for \<^verbatim>\<open>merge\<close>), in the order
  of the left rows. The fields \<open>Gold_Close\<close> and \<open>Silver_Close\<close> are the columns
  \<^verbatim>\<open>Gold_Price\<close> and \<^verbatim>\<open>Silver_Price\<close> after the \<^verbatim>\<open>rename\<close> of line 23.
\<close>

definition join_row :: "stamp \<Rightarrow> gold_silver_row \<Rightarrow> macro_row \<Rightarrow> merged_row" where
  "join_row d g m =
     \<lparr> Date = d,
       Gold_Close = gs_Gold_Price g,
       Silver_Close = gs_Silver_Price g,
       Gold_Returns = gs_Gold_Returns g,
       Silver_Returns = gs_Silver_Returns g,
       India_CPI = macro_India_CPI m,
       DXY = macro_DXY m,
       US10Y_Yield = macro_US10Y_Yield m,
       GoogleTrends_Gold = macro_GoogleTrends_Gold m,
       GoogleTrends_Silver = macro_GoogleTrends_Silver m \<rparr>"

definition merge_inner ::
  "(stamp \<times> gold_silver_row) list \<Rightarrow> (stamp \<times> macro_row) list \<Rightarrow> merged_row list" where
  "merge_inner left right =
     concat (map (\<lambda>(d, g). map (\<lambda>(d', m). join_row d g m)
                               (filter (\<lambda>(d', m). d' = d) right)) left)"

text \<open>
  \<^verbatim>\<open>df.sort_values('Date')\<close>: ascending, \<^verbatim>\<open>NaT\<close> last. The order that pandas gives to
  rows with equal dates is not specified; the model keeps them in their order.
\<close>

fun na_last :: "stamp \<Rightarrow> bool \<times> int" where
  "na_last NaT = (True, 0)"
| "na_last (Stamp t) = (False, t)"

definition sort_values :: "merged_row list \<Rightarrow> merged_row list" where
  "sort_values df = sort_key (\<lambda>r. na_last (Date r)) df"

text \<open>\<^verbatim>\<open>pd.to_numeric(column, errors='coerce')\<close>, value by value.\<close>

fun to_numeric :: "float_parser \<Rightarrow> cell \<Rightarrow> cell" where
  "to_numeric parse_float (Float f) = Float f"
| "to_numeric parse_float (Text s) =
     (case parse_float s of Some f \<Rightarrow> Float f | None \<Rightarrow> Float NaN)"

text \<open>Lines 28 to 31: the four columns of \<^verbatim>\<open>numeric_cols\<close>, and no other, are coerced.\<close>

definition coerce_row :: "float_parser \<Rightarrow> merged_row \<Rightarrow> merged_row" where
  "coerce_row parse_float r =
     r\<lparr> Gold_Returns := to_numeric parse_float (Gold_Returns r),
        Silver_Returns := to_numeric parse_float (Silver_Returns r),
        DXY := to_numeric parse_float (DXY r),
        US10Y_Yield := to_numeric parse_float (US10Y_Yield r) \<rparr>"

definition coerce_numeric :: "float_parser \<Rightarrow> merged_row list \<Rightarrow> merged_row list" where
  "coerce_numeric parse_float df = map (coerce_row parse_float) df"

subsection \<open>Rolling statistics\<close>

definition mean :: "real list \<Rightarrow> real" where
  "mean xs = sum_list xs / real (length xs)"

text \<open>The sample variance (\<^verbatim>\<open>ddof=1\<close>).\<close>

definition var :: "real list \<Rightarrow> real" where
  "var xs = sum_list (map (\<lambda>x. (x - mean xs)\<^sup>2) xs) / (real (length xs) - 1)"

text \<open>
  The window that ends at position \<open>i\<close>, when it holds \<open>n\<close> valid observations
  (\<^verbatim>\<open>min_periods\<close> is the window size); rolling operations read an infinity as \<^verbatim>\<open>NaN\<close>.
\<close>

definition rolling_cells :: "nat \<Rightarrow> cell list \<Rightarrow> nat \<Rightarrow> cell list" where
  "rolling_cells n col i = iloc (i + 1 - n) (i + 1) col"

definition rolling_window :: "nat \<Rightarrow> cell list \<Rightarrow> nat \<Rightarrow> real list option" where
  "rolling_window n col i =
     (if i + 1 < n then None else those (map finite_value (rolling_cells n col i)))"

definition window_std :: "real list option \<Rightarrow> float64" where
  "window_std w =
     (case w of
        None \<Rightarrow> NaN
      | Some xs \<Rightarrow> if length xs \<le> 1 then NaN else Finite (sqrt (var xs)))"

text \<open>\<^verbatim>\<open>column.rolling(n).std()\<close>; a column that holds a text cannot be aggregated.\<close>

definition rolling_std :: "nat \<Rightarrow> cell list \<Rightarrow> error + float64 list" where
  "rolling_std n col =
     (if list_ex is_text col then Inl DataError
      else Inr (map (\<lambda>i. window_std (rolling_window n col i)) [0 ..< length col]))"

text \<open>The factor \<^verbatim>\<open>252**0.5\<close> of lines 34 and 35.\<close>

fun annualize :: "float64 \<Rightarrow> float64" where
  "annualize (Finite x) = Finite (x * sqrt 252)"
| "annualize PosInf = PosInf"
| "annualize NegInf = NegInf"
| "annualize NaN = NaN"

text \<open>Division of two floats, as IEEE 754 has it (signed zeros are not modelled).\<close>

fun fdiv :: "float64 \<Rightarrow> float64 \<Rightarrow> float64" where
  "fdiv (Finite a) (Finite b) =
     (if b = 0 then (if a = 0 then NaN else if 0 < a then PosInf else NegInf)
      else Finite (a / b))"
| "fdiv (Finite a) PosInf = Finite 0"
| "fdiv (Finite a) NegInf = Finite 0"
| "fdiv PosInf (Finite b) = (if 0 \<le> b then PosInf else NegInf)"
| "fdiv NegInf (Finite b) = (if 0 \<le> b then NegInf else PosInf)"
| "fdiv PosInf PosInf = NaN"
| "fdiv PosInf NegInf = NaN"
| "fdiv NegInf PosInf = NaN"
| "fdiv NegInf NegInf = NaN"
| "fdiv NaN b = NaN"
| "fdiv (Finite a) NaN = NaN"
| "fdiv PosInf NaN = NaN"
| "fdiv NegInf NaN = NaN"

text \<open>
  The correlation of one window as pandas computes it:
  \<^verbatim>\<open>(mean(x*y) - mean(x)*mean(y)) * (n/(n-1)) / sqrt(var(x)*var(y))\<close>.
\<close>

definition pearson :: "real list \<Rightarrow> real list \<Rightarrow> float64" where
  "pearson xs ys =
     (let n = real (length xs);
          numerator = (mean (map2 (*) xs ys) - mean xs * mean ys) * (n / (n - 1));
          denominator = sqrt (var xs * var ys)
      in if length xs \<le> 1 then NaN else fdiv (Finite numerator) (Finite denominator))"

definition window_corr :: "real list option \<Rightarrow> real list option \<Rightarrow> float64" where
  "window_corr wx wy =
     (case wx of
        None \<Rightarrow> NaN
      | Some xs \<Rightarrow> (case wy of None \<Rightarrow> NaN | Some ys \<Rightarrow> pearson xs ys))"

text \<open>\<^verbatim>\<open>x.rolling(n).corr(y)\<close> for two columns of one data frame.\<close>

definition rolling_corr :: "nat \<Rightarrow> cell list \<Rightarrow> cell list \<Rightarrow> error + float64 list" where
  "rolling_corr n x y =
     (if list_ex is_text x \<or> list_ex is_text y then Inl DataError
      else Inr (map (\<lambda>i. window_corr (rolling_window n x i) (rolling_window n y i))
                    [0 ..< length x]))"

text \<open>
  \<^verbatim>\<open>df['Gold_Close'] / df['Silver_Close']\<close> (line 38). Value by value, the quotient is
  null when either side is null, and a \<^verbatim>\<open>TypeError\<close> when a text meets a value that is not
  null.
\<close>

definition cell_truediv :: "cell \<Rightarrow> cell \<Rightarrow> error + cell" where
  "cell_truediv x y =
     (if isnull x \<or> isnull y then Inr (Float NaN)
      else (case x of
              Text s \<Rightarrow> Inl TypeError
            | Float a \<Rightarrow> (case y of Text s \<Rightarrow> Inl TypeError
                                  | Float b \<Rightarrow> Inr (Float (fdiv a b)))))"

fun all_or_error :: "(error + 'a) list \<Rightarrow> error + 'a list" where
  "all_or_error [] = Inr []"
| "all_or_error (Inl e # rest) = Inl e"
| "all_or_error (Inr v # rest) =
     (case all_or_error rest of Inl e \<Rightarrow> Inl e | Inr vs \<Rightarrow> Inr (v # vs))"

text \<open>
  On a column that is not of floats pandas divides with the operators of Python, which
  raise a \<^verbatim>\<open>ZeroDivisionError\<close> on a zero divisor, where the division of floats returns an
  infinity or \<^verbatim>\<open>NaN\<close>.
\<close>

definition object_truediv :: "cell \<Rightarrow> cell \<Rightarrow> error + cell" where
  "object_truediv x y =
     (if isnull x \<or> isnull y then Inr (Float NaN)
      else if y = Float (Finite 0) then
        (case x of Text s \<Rightarrow> Inl TypeError | Float a \<Rightarrow> Inl ZeroDivisionError)
      else cell_truediv x y)"

text \<open>
  \<^verbatim>\<open>read_excel\<close> gives a column the dtype \<^verbatim>\<open>float64\<close> (or \<^verbatim>\<open>int64\<close>) when it has a value and
  holds no text; a column that holds a text, and a column of a sheet without rows, has the
  dtype \<^verbatim>\<open>object\<close> or \<^verbatim>\<open>str\<close>. The merge and the sort keep the dtype of a column.
\<close>

definition float_column :: "cell list \<Rightarrow> bool" where
  "float_column col = (col \<noteq> [] \<and> \<not> list_ex is_text col)"

text \<open>
  Two columns of floats are divided as floats, which never raises. On other columns the
  values decide as above, and pandas may raise where they do not: a \<^verbatim>\<open>str\<close> column has no
  division at all, and the first pass over an \<^verbatim>\<open>object\<close> column stops at a null over zero
  that comes before any text. This depends on the version of pandas and on what is
  installed beside it; it is the parameter \<open>refuses\<close>, asked before the values are divided.
\<close>

datatype refusal = Accepts | RaisesTypeError | RaisesZeroDivisionError

type_synonym division_check = "cell list \<Rightarrow> cell list \<Rightarrow> refusal"

definition series_truediv ::
  "division_check \<Rightarrow> bool \<Rightarrow> cell list \<Rightarrow> cell list \<Rightarrow> error + cell list" where
  "series_truediv refuses float_dtype xs ys =
     (if float_dtype then all_or_error (map2 cell_truediv xs ys)
      else (case refuses xs ys of
              RaisesTypeError \<Rightarrow> Inl TypeError
            | RaisesZeroDivisionError \<Rightarrow> Inl ZeroDivisionError
            | Accepts \<Rightarrow> all_or_error (map2 object_truediv xs ys)))"

subsection \<open>The derived columns and the whole function\<close>

definition with_derived :: "merged_row \<Rightarrow> cell \<Rightarrow> cell \<Rightarrow> cell \<Rightarrow> cell \<Rightarrow> cell \<Rightarrow> row" where
  "with_derived r gv sv gd gy ratio =
     \<lparr> Date = Date r,
       Gold_Close = Gold_Close r,
       Silver_Close = Silver_Close r,
       Gold_Returns = Gold_Returns r,
       Silver_Returns = Silver_Returns r,
       India_CPI = India_CPI r,
       DXY = DXY r,
       US10Y_Yield = US10Y_Yield r,
       GoogleTrends_Gold = GoogleTrends_Gold r,
       GoogleTrends_Silver = GoogleTrends_Silver r,
       Gold_Volatility = gv,
       Silver_Volatility = sv,
       Gold_to_DXY_Corr = gd,
       Gold_to_Yield_Corr = gy,
       Gold_Silver_Ratio = ratio \<rparr>"

text \<open>Lines 34 to 38, each column computed over the whole table.\<close>

definition add_derived :: "division_check \<Rightarrow> bool \<Rightarrow> merged_row list \<Rightarrow> error + row list" where
  "add_derived refuses float_prices df =
     and_then (rolling_std 30 (map Gold_Returns df)) (\<lambda>gold_std.
     and_then (rolling_std 30 (map Silver_Returns df)) (\<lambda>silver_std.
     and_then (rolling_corr 90 (map Gold_Returns df) (map DXY df)) (\<lambda>dxy_corr.
     and_then (rolling_corr 90 (map Gold_Returns df) (map US10Y_Yield df)) (\<lambda>yield_corr.
     and_then (series_truediv refuses float_prices (map Gold_Close df) (map Silver_Close df)) (\<lambda>ratio.
       Inr (map (\<lambda>i. with_derived (df ! i)
                       (Float (annualize (gold_std ! i)))
                       (Float (annualize (silver_std ! i)))
                       (Float (dxy_corr ! i))
                       (Float (yield_corr ! i))
                       (ratio ! i))
                [0 ..< length df]))))))"

text \<open>The two price columns of the first sheet are both of floats.\<close>

definition price_columns_float :: "gold_silver_row list \<Rightarrow> bool" where
  "price_columns_float gold_silver =
     (float_column (map gs_Gold_Price gold_silver) \<and> float_column (map gs_Silver_Price gold_silver))"

definition load_data ::
  "division_check \<Rightarrow> date_parser \<Rightarrow> float_parser \<Rightarrow> gold_silver_row list \<Rightarrow> macro_row list
     \<Rightarrow> error + row list" where
  "load_data refuses parse_date parse_float gold_silver macro =
     and_then (to_datetime parse_date (map gs_Date gold_silver)) (\<lambda>gs_dates.
     and_then (to_datetime parse_date (map macro_Date macro)) (\<lambda>macro_dates.
       add_derived refuses (price_columns_float gold_silver)
         (coerce_numeric parse_float
           (sort_values
             (merge_inner (zip gs_dates gold_silver) (zip macro_dates macro))))))"

text \<open>
  Names for the table before the derived columns are added, for a row of the result, and
  for the values that a window of the result holds.
\<close>

definition merged_table ::
  "float_parser \<Rightarrow> stamp list \<Rightarrow> gold_silver_row list \<Rightarrow> stamp list \<Rightarrow> macro_row list
     \<Rightarrow> merged_row list" where
  "merged_table parse_float gs_dates gold_silver macro_dates macro =
     coerce_numeric parse_float
       (sort_values (merge_inner (zip gs_dates gold_silver) (zip macro_dates macro)))"

definition derived_row :: "merged_row list \<Rightarrow> cell list \<Rightarrow> nat \<Rightarrow> row" where
  "derived_row df ratio i =
     with_derived (df ! i)
       (Float (annualize (window_std (rolling_window 30 (map Gold_Returns df) i))))
       (Float (annualize (window_std (rolling_window 30 (map Silver_Returns df) i))))
       (Float (window_corr (rolling_window 90 (map Gold_Returns df) i)
                           (rolling_window 90 (map DXY df) i)))
       (Float (window_corr (rolling_window 90 (map Gold_Returns df) i)
                           (rolling_window 90 (map US10Y_Yield df) i)))
       (ratio ! i)"


subsection \<open>Example sheets and parsers\<close>

text \<open>
  A date parser that reads a number as a day count and an empty cell as \<^verbatim>\<open>NaT\<close> and
  rejects a text, and a number parser that knows the word \<^verbatim>\<open>inf\<close> only.
\<close>

fun day_number :: date_parser where
  "day_number col (Float (Finite x)) = Some (Stamp \<lfloor>x\<rfloor>)"
| "day_number col (Float NaN) = Some NaT"
| "day_number col (Float PosInf) = None"
| "day_number col (Float NegInf) = None"
| "day_number col (Text s) = None"

definition inf_only :: float_parser where
  "inf_only s = (if s = ''inf'' then Some PosInf else None)"

text \<open>A price sheet and a macro sheet of \<open>n\<close> consecutive days.\<close>

definition price_sheet :: "nat \<Rightarrow> cell \<Rightarrow> cell \<Rightarrow> gold_silver_row list" where
  "price_sheet n gold_price gold_returns =
     map (\<lambda>k. \<lparr> gs_Date = Float (Finite (real k)),
                 gs_Gold_Price = gold_price,
                 gs_Silver_Price = Float (Finite 24),
                 gs_Gold_Returns = gold_returns,
                 gs_Silver_Returns = Float (Finite 3) \<rparr>) [0 ..< n]"



definition macro_sheet :: "nat \<Rightarrow> cell \<Rightarrow> macro_row list" where
  "macro_sheet n cpi =
     map (\<lambda>k. \<lparr> macro_Date = Float (Finite (real k)),
                 macro_India_CPI = cpi,
                 macro_DXY = Float (Finite (100 + real k)),
                 macro_US10Y_Yield = Float (Finite 4),
                 macro_GoogleTrends_Gold = Float (Finite 50),
                 macro_GoogleTrends_Silver = Float (Finite 40) \<rparr>) [0 ..< n]"

text \<open>A pandas that raises only where the values do.\<close>

definition never_refuses :: division_check where
  "never_refuses xs ys = Accepts"


section \<open>Properties of the rolling regression\<close>

subsection \<open>Auxiliary facts\<close>

lemma loop_body_acc:
  "loop_body fit window df i acc = acc @ loop_body fit window df i []"
  by (simp add: loop_body_def split: sum.splits)

lemma fold_loop_body:
  "fold (loop_body fit window df) indices acc =
     acc @ concat (map (\<lambda>i. loop_body fit window df i []) indices)"
proof (induction indices arbitrary: acc)
  case Nil
  show ?case by simp
next
  case (Cons i indices)
  have "fold (loop_body fit window df) (i # indices) acc =
        fold (loop_body fit window df) indices (acc @ loop_body fit window df i [])"
    using loop_body_acc [of fit window df i acc] by simp
  then show ?case by (simp add: Cons.IH)
qed

lemma rolling_loop_concat:
  "rolling_loop fit window df indices = concat (map (\<lambda>i. loop_body fit window df i []) indices)"
  by (simp add: rolling_loop_def fold_loop_body)

lemma rolling_loop_append:
  "rolling_loop fit window df (before @ after) =
     rolling_loop fit window df before @ rolling_loop fit window df after"
  by (simp add: rolling_loop_concat)

lemma loop_body_skipped:
  "window_skipped fit window df i \<Longrightarrow> loop_body fit window df i [] = []"
  by (auto simp: window_skipped_def loop_body_def try_fit_def isl_def split: sum.splits)

lemma loop_body_emitted:
  assumes "\<not> window_skipped fit window df i" and "i < length df"
  shows "\<exists>p. loop_body fit window df i [] = [p] \<and> point_Date p = Date (df ! i)"
  using assms
  by (auto simp: window_skipped_def loop_body_def try_fit_def isl_def split: sum.splits)

lemma length_loop_body:
  "i < length df \<Longrightarrow>
   length (loop_body fit window df i []) = (if window_skipped fit window df i then 0 else 1)"
  using loop_body_skipped [of fit window df i] loop_body_emitted [of fit window df i]
  by auto

lemma filtered_eq:
  "filtered df0 = filter (\<lambda>r. \<not> isnull (Gold_Returns r) \<and> \<not> isnull (India_CPI r) \<and> \<not> isnull (DXY r) \<and>
      \<not> isnull (US10Y_Yield r) \<and> \<not> isnull (GoogleTrends_Gold r)) df0"
  by (simp add: filtered_def dropna_def required_columns_def)

lemma filtered_notnull:
  assumes "r \<in> set (filtered df0)"
  shows "\<not> isnull (Gold_Returns r)" "\<not> isnull (India_CPI r)" "\<not> isnull (DXY r)"
    "\<not> isnull (US10Y_Yield r)" "\<not> isnull (GoogleTrends_Gold r)"
  using assms by (simp_all add: filtered_eq)

lemma set_iloc: "set (iloc a b xs) \<subseteq> set xs"
  unfolding iloc_def by (meson set_drop_subset set_take_subset subset_trans)

lemma window_y_notnull: "\<not> series_isnull_any (window_y window (filtered df0) i)"
proof -
  have "c \<in> set (window_y window (filtered df0) i) \<Longrightarrow> \<not> isnull c" for c
    using set_iloc [of "i - window" i "map Gold_Returns (filtered df0)"]
    by (auto simp: window_y_def dest: filtered_notnull(1))
  then show ?thesis by (auto simp: series_isnull_any_def list_ex_iff)
qed

lemma add_constant_notnull:
  "\<not> frame_isnull_any X \<Longrightarrow> \<not> frame_isnull_any (add_constant X)"
  by (auto simp: frame_isnull_any_def add_constant_def list_ex_iff)

lemma window_X_notnull: "\<not> frame_isnull_any (window_X window (filtered df0) i)"
proof -
  have "c \<in> set (iloc (i - window) i (map col (filtered df0))) \<Longrightarrow> (name, col) \<in> set predictors \<Longrightarrow> \<not> isnull c" for c name col
    using set_iloc [of "i - window" i "map col (filtered df0)"]
    by (auto simp: predictors_def dest: filtered_notnull)
  then have "\<not> frame_isnull_any (map (\<lambda>(name, col). (name, iloc (i - window) i (map col (filtered df0)))) predictors)"
    by (auto simp: frame_isnull_any_def list_ex_iff)
  then show ?thesis unfolding window_X_def by (rule add_constant_notnull)
qed

lemma length_rolling_loop:
  assumes "\<forall>i\<in>set indices. i < length df"
  shows "length (rolling_loop fit window df indices) + length (filter (window_skipped fit window df) indices) = length indices"
  using assms
proof (induction indices)
  case Nil
  show ?case by (simp add: rolling_loop_concat)
next
  case (Cons i indices)
  then show ?case
    by (simp add: rolling_loop_concat length_loop_body)
qed

lemma dates_rolling_loop:
  assumes "\<forall>i\<in>set indices. i < length df"
  shows "map point_Date (rolling_loop fit window df indices) =
         map (\<lambda>i. Date (df ! i)) (filter (\<lambda>i. \<not> window_skipped fit window df i) indices)"
  using assms
proof (induction indices)
  case Nil
  show ?case by (simp add: rolling_loop_concat)
next
  case (Cons i indices)
  show ?case
  proof (cases "window_skipped fit window df i")
    case True
    with Cons show ?thesis by (simp add: rolling_loop_concat loop_body_skipped)
  next
    case False
    then obtain p where "loop_body fit window df i [] = [p]" "point_Date p = Date (df ! i)"
      using loop_body_emitted [of fit window df i] Cons.prems by auto
    with False Cons show ?thesis by (simp add: rolling_loop_concat)
  qed
qed

lemma loop_body_complete:
  assumes "fit_complete fit window df i" and "i < length df"
    and "\<not> frame_isnull_any (window_X window df i)" and "\<not> series_isnull_any (window_y window df i)"
  shows "\<exists>p. loop_body fit window df i [] = [p] \<and> point_complete p"
  using assms
  by (auto simp: fit_complete_def loop_body_def try_fit_def point_complete_def predictor_names_def
      split: sum.splits)

lemma fit_complete_not_skipped:
  assumes "fit_complete fit window (filtered df0) i"
  shows "\<not> window_skipped fit window (filtered df0) i"
  using assms window_X_notnull [of window df0 i] window_y_notnull [of window df0 i]
  by (auto simp: fit_complete_def window_skipped_def isl_def split: sum.splits)

lemma those_map_Some:
  "(\<forall>x\<in>set xs. f x \<noteq> None) \<Longrightarrow> \<exists>ys. those (map f xs) = Some ys \<and> length ys = length xs"
  by (induction xs) auto

lemma those_map_None:
  "\<exists>x\<in>set xs. f x = None \<Longrightarrow> those (map f xs) = None"
  by (induction xs) (auto split: option.splits)

lemma float_value_None_iff: "float_value c = None \<longleftrightarrow> is_text c"
  by (cases c) simp_all

lemma map_of_zip_replicate:
  "name \<in> set names \<Longrightarrow> n = length names \<Longrightarrow> map_of (zip names (replicate n v)) name = Some v"
  by (induction names arbitrary: n) auto

lemma OLS_fit_zero_solver:
  assumes y: "\<forall>c\<in>set y. \<not> is_text c"
    and X: "\<forall>(name, s)\<in>set X. \<forall>c\<in>set s. \<not> is_text c"
  shows "OLS_fit zero_solver y X = Inr (zip (map fst X) (replicate (length X) (Finite 0)))"
proof -
  obtain endog where endog: "those (map float_value y) = Some endog"
    using those_map_Some [of y float_value] y by (auto simp: float_value_None_iff)
  have "\<forall>p\<in>set X. (\<lambda>(name, s). those (map float_value s)) p \<noteq> None"
  proof
    fix p assume p: "p \<in> set X"
    obtain name s where ps: "p = (name, s)" by (cases p)
    have "\<forall>c\<in>set s. float_value c \<noteq> None"
      using X p ps by (auto simp: float_value_None_iff)
    then show "(\<lambda>(name, s). those (map float_value s)) p \<noteq> None"
      using those_map_Some [of s float_value] ps by auto
  qed
  then obtain exog where exog: "those (map (\<lambda>(name, s). those (map float_value s)) X) = Some exog"
    "length exog = length X"
    using those_map_Some [of X "\<lambda>(name, s). those (map float_value s)"] by auto
  show ?thesis by (simp add: OLS_fit_def endog exog zero_solver_def)
qed

lemma OLS_fit_text:
  assumes "(name, s) \<in> set X" and "c \<in> set s" and "is_text c"
  shows "isl (OLS_fit solve y X)"
proof -
  have "those (map float_value s) = None"
    using assms those_map_None [of s float_value] by (auto simp: float_value_None_iff)
  then have "those (map (\<lambda>(name, s). those (map float_value s)) X) = None"
    using assms(1) those_map_None [of X "\<lambda>(name, s). those (map float_value s)"] by force
  then show ?thesis by (simp add: OLS_fit_def split: option.splits)
qed

lemma names_add_constant: "set (map fst X) \<subseteq> set (map fst (add_constant X))"
  by (auto simp: add_constant_def)

lemma names_window_X: "set predictor_names \<subseteq> set (map fst (window_X window df i))"
proof -
  have "set predictor_names = set (map fst (map (\<lambda>(name, col). (name, iloc (i - window) i (map col df))) predictors))"
    by (simp add: predictor_names_def predictors_def)
  then show ?thesis unfolding window_X_def using names_add_constant by blast
qed

lemma add_constant_no_text:
  assumes "\<forall>(name, s)\<in>set X. \<forall>c\<in>set s. \<not> is_text c"
  shows "\<forall>(name, s)\<in>set (add_constant X). \<forall>c\<in>set s. \<not> is_text c"
  using assms by (auto simp: add_constant_def)

lemma window_X_no_text:
  assumes "\<forall>r\<in>set df. numeric_row r"
  shows "\<forall>(name, s)\<in>set (window_X window df i). \<forall>c\<in>set s. \<not> is_text c"
  unfolding window_X_def
proof (rule add_constant_no_text)
  show "\<forall>(name, s)\<in>set (map (\<lambda>(name, col). (name, iloc (i - window) i (map col df))) predictors).
          \<forall>c\<in>set s. \<not> is_text c"
    using assms set_iloc [of "i - window" i "map India_CPI df"]
      set_iloc [of "i - window" i "map DXY df"]
      set_iloc [of "i - window" i "map US10Y_Yield df"]
      set_iloc [of "i - window" i "map GoogleTrends_Gold df"]
    by (auto simp: predictors_def numeric_row_def)
qed

lemma window_y_no_text:
  assumes "\<forall>r\<in>set df. numeric_row r"
  shows "\<forall>c\<in>set (window_y window df i). \<not> is_text c"
  using assms set_iloc [of "i - window" i "map Gold_Returns df"]
  by (auto simp: window_y_def numeric_row_def)

lemma fit_complete_numeric:
  assumes "\<forall>r\<in>set df. numeric_row r"
  shows "fit_complete (OLS_fit zero_solver) window df i"
proof -
  let ?X = "window_X window df i"
  have fit: "OLS_fit zero_solver (window_y window df i) ?X =
      Inr (zip (map fst ?X) (replicate (length (map fst ?X)) (Finite 0)))"
    using OLS_fit_zero_solver [OF window_y_no_text [OF assms] window_X_no_text [OF assms]] by simp
  have "params_get (zip (map fst ?X) (replicate (length ?X) (Finite 0))) name \<noteq> NaN"
    if "name \<in> set predictor_names" for name
  proof -
    have "name \<in> set (map fst ?X)"
      using that names_window_X [of window df i] by blast
    then have "map_of (zip (map fst ?X) (replicate (length ?X) (Finite 0))) name = Some (Finite 0)"
      by (rule map_of_zip_replicate) simp
    then show ?thesis by (simp add: params_get_def)
  qed
  then show ?thesis by (simp add: fit_complete_def fit list_all_iff)
qed

lemma filtered_id:
  assumes "\<forall>r\<in>set df. \<not> isnull (Gold_Returns r) \<and> \<not> isnull (India_CPI r) \<and> \<not> isnull (DXY r) \<and>
             \<not> isnull (US10Y_Yield r) \<and> \<not> isnull (GoogleTrends_Gold r)"
  shows "filtered df = df"
  using assms by (simp add: filtered_eq)

lemma filtered_daily_rows: "filtered (daily_rows n) = daily_rows n"
  by (rule filtered_id) (auto simp: daily_rows_def sample_row_def)

lemma numeric_daily_rows: "\<forall>r\<in>set (daily_rows n). numeric_row r"
  by (auto simp: daily_rows_def sample_row_def numeric_row_def)

lemma nth_in_iloc:
  assumes "a \<le> k" and "k < b" and "k < length xs"
  shows "xs ! k \<in> set (iloc a b xs)"
proof -
  have "k - a < length (iloc a b xs)" using assms by (auto simp: iloc_def)
  moreover have "iloc a b xs ! (k - a) = xs ! k" using assms by (simp add: iloc_def)
  ultimately show ?thesis by (metis nth_mem)
qed

lemma window_X_has_column:
  "(''India_CPI'', iloc (i - window) i (map India_CPI df)) \<in> set (window_X window df i)"
  by (simp add: window_X_def add_constant_def predictors_def)

lemma text_in_window_skipped:
  assumes "i - window \<le> k" and "k < i" and "k < length df" and "is_text (India_CPI (df ! k))"
  shows "window_skipped (OLS_fit solve) window df i"
proof -
  have "map India_CPI df ! k \<in> set (iloc (i - window) i (map India_CPI df))"
    using assms by (intro nth_in_iloc) simp_all
  then have "isl (OLS_fit solve (window_y window df i) (window_X window df i))"
    using OLS_fit_text [OF window_X_has_column, where c = "map India_CPI df ! k"] assms
    by simp
  then show ?thesis by (simp add: window_skipped_def)
qed

lemma filtered_rows_with_text: "filtered (rows_with_text n pos) = rows_with_text n pos"
  by (rule filtered_id) (auto simp: rows_with_text_def sample_row_def)

lemma rolling_loop_all_skipped:
  assumes "\<forall>i\<in>set indices. window_skipped fit window df i"
  shows "rolling_loop fit window df indices = []"
  using assms by (simp add: rolling_loop_concat loop_body_skipped)

lemma null_in_window_skipped:
  assumes "i - window \<le> k" and "k < i" and "k < length df" and "isnull (India_CPI (df ! k))"
  shows "frame_isnull_any (window_X window df i)"
proof -
  have "map India_CPI df ! k \<in> set (iloc (i - window) i (map India_CPI df))"
    using assms by (intro nth_in_iloc) simp_all
  then have "list_ex isnull (iloc (i - window) i (map India_CPI df))"
    using assms(3,4) by (auto simp: list_ex_iff)
  then show ?thesis
    using window_X_has_column [of i window df] unfolding frame_isnull_any_def list_ex_iff by force
qed

lemma sorted_wrt_dates_filter:
  assumes "sorted_wrt stamp_less (map Date df)" and "sorted_wrt (<) indices"
    and "\<forall>i\<in>set indices. i < length df"
  shows "sorted_wrt stamp_less (map (\<lambda>i. Date (df ! i)) (filter P indices))"
proof -
  have "sorted_wrt (\<lambda>i j. stamp_less (Date (df ! i)) (Date (df ! j))) indices"
  proof (rule sorted_wrt_mono_rel [OF _ assms(2)])
    fix i j assume "i \<in> set indices" "j \<in> set indices" "i < j"
    then show "stamp_less (Date (df ! i)) (Date (df ! j))"
      using assms(1,3) sorted_wrt_nth_less [of stamp_less "map Date df" i j] by simp
  qed
  then have "sorted_wrt (\<lambda>i j. stamp_less (Date (df ! i)) (Date (df ! j))) (filter P indices)"
    by (rule sorted_wrt_filter)
  then show ?thesis by (simp add: sorted_wrt_map)
qed

lemma sorted_stamps_upt: "sorted_wrt stamp_less (map (\<lambda>k. Stamp (int k)) [0 ..< n])"
proof -
  have "sorted_wrt (\<lambda>i j. stamp_less (Stamp (int i)) (Stamp (int j))) [0 ..< n]"
    by (rule sorted_wrt_mono_rel [of _ "(<)"]) simp_all
  then show ?thesis by (simp add: sorted_wrt_map)
qed

lemma dates_rows_with_text: "map Date (rows_with_text n pos) = map (\<lambda>k. Stamp (int k)) [0 ..< n]"
  by (simp add: rows_with_text_def sample_row_def)

lemma filtered_doubled_rows: "filtered (doubled_rows n) = doubled_rows n"
  by (rule filtered_id) (auto simp: doubled_rows_def sample_row_def)

lemma numeric_doubled_rows: "\<forall>r\<in>set (doubled_rows n). numeric_row r"
  by (auto simp: doubled_rows_def sample_row_def numeric_row_def)

subsection \<open>The number of points\<close>

text \<open>
  Claim C1, as amended. The function drops, once and for the whole table, every row with a
  null in one of the five required columns, then runs the loop over the indices from
  \<open>window\<close> to the last row of the filtered table, so it returns at most
  \<open>length (filtered df0) - window\<close> points (none when the window exceeds the filtered table).
  It returns exactly that many, each with four coefficients that are not null, provided the
  fit of every window returns a value that is not null for each of the four predictors: for
  300 filtered rows and a window of 180 that is 120 points.
\<close>

theorem rolling_betas_count:
  "filtered df0 =
     filter (\<lambda>r. \<not> isnull (Gold_Returns r) \<and> \<not> isnull (India_CPI r) \<and> \<not> isnull (DXY r) \<and>
                 \<not> isnull (US10Y_Yield r) \<and> \<not> isnull (GoogleTrends_Gold r)) df0
   \<and> calculate_rolling_betas fit window df0 =
       rolling_loop fit window (filtered df0) [window ..< length (filtered df0)]
   \<and> length (calculate_rolling_betas fit window df0) \<le> length (filtered df0) - window
   \<and> ((\<forall>i. window \<le> i \<and> i < length (filtered df0) \<longrightarrow> fit_complete fit window (filtered df0) i)
        \<longrightarrow> length (calculate_rolling_betas fit window df0) = length (filtered df0) - window
          \<and> list_all point_complete (calculate_rolling_betas fit window df0))"
proof -
  let ?df = "filtered df0"
  let ?out = "calculate_rolling_betas fit window df0"
  have out: "?out = rolling_loop fit window ?df [window ..< length ?df]"
    by (simp add: calculate_rolling_betas_def Let_def)
  have len: "length ?out + length (filter (window_skipped fit window ?df) [window ..< length ?df])
               = length ?df - window"
    using length_rolling_loop [of "[window ..< length ?df]" ?df fit window] out by simp
  have full: "length ?out = length ?df - window \<and> list_all point_complete ?out"
    if all: "\<forall>i. window \<le> i \<and> i < length ?df \<longrightarrow> fit_complete fit window ?df i"
  proof
    have "filter (window_skipped fit window ?df) [window ..< length ?df] = []"
      using all fit_complete_not_skipped [of fit window df0] by (auto simp: filter_empty_conv)
    with len show "length ?out = length ?df - window" by simp
    have "\<forall>p\<in>set (loop_body fit window ?df i []). point_complete p"
      if "i \<in> set [window ..< length ?df]" for i
      using loop_body_complete [of fit window ?df i] all that
        window_X_notnull [of window df0 i] window_y_notnull [of window df0 i]
      by auto
    then show "list_all point_complete ?out"
      unfolding out rolling_loop_concat list_all_iff by auto
  qed
  show ?thesis using filtered_eq [of df0] out len full by simp
qed

text \<open>300 numeric rows and a window of 180: 120 points, each complete.\<close>

theorem rolling_betas_count_witness:
  "length (filtered (daily_rows 300)) = 300
   \<and> length (calculate_rolling_betas (OLS_fit zero_solver) 180 (daily_rows 300)) = 120
   \<and> list_all point_complete (calculate_rolling_betas (OLS_fit zero_solver) 180 (daily_rows 300))"
proof -
  have len: "length (filtered (daily_rows 300)) = 300"
    by (simp add: filtered_daily_rows) (simp add: daily_rows_def)
  have fits: "\<forall>i. 180 \<le> i \<and> i < length (filtered (daily_rows 300)) \<longrightarrow>
      fit_complete (OLS_fit zero_solver) 180 (filtered (daily_rows 300)) i"
    using fit_complete_numeric [OF numeric_daily_rows] by (simp add: filtered_daily_rows)
  have "length (calculate_rolling_betas (OLS_fit zero_solver) 180 (daily_rows 300)) =
          length (filtered (daily_rows 300)) - 180
        \<and> list_all point_complete (calculate_rolling_betas (OLS_fit zero_solver) 180 (daily_rows 300))"
    using rolling_betas_count [of "daily_rows 300" "OLS_fit zero_solver" 180] fits by blast
  then show ?thesis by (simp only: len) simp
qed

text \<open>
  Claim C1 as stated fails: 300 rows without a null, of which one holds a text in
  \<^verbatim>\<open>India_CPI\<close>. Every window covers that row, every fit raises, and no point is returned.
\<close>

theorem rolling_betas_count_counterexample:
  "filtered (rows_with_text 300 150) = rows_with_text 300 150
   \<and> length (filtered (rows_with_text 300 150)) = 300
   \<and> calculate_rolling_betas (OLS_fit zero_solver) 180 (rows_with_text 300 150) = []"
proof -
  let ?df = "rows_with_text 300 150"
  have len: "length ?df = 300" by (simp add: rows_with_text_def)
  have text_cell: "is_text (India_CPI (?df ! 150))"
    by (simp add: rows_with_text_def sample_row_def)
  have "window_skipped (OLS_fit zero_solver) 180 ?df i" if "i \<in> set [180 ..< length ?df]" for i
    using that len text_cell by (intro text_in_window_skipped [where k = 150]) auto
  then have "rolling_loop (OLS_fit zero_solver) 180 ?df [180 ..< length ?df] = []"
    by (intro rolling_loop_all_skipped) blast
  then show ?thesis
    by (simp add: calculate_rolling_betas_def filtered_rows_with_text len)
qed

subsection \<open>Skipped windows\<close>

text \<open>
  Claim C2. A window with a null in \<open>X\<close> or \<open>y\<close>, or whose fit raises, is skipped silently:
  its index emits no point, and the loop over the whole range returns what the indices before
  it emit followed by what the indices after it emit, on any table and so on the filtered
  one. The function returns a list for every input: no error reaches the caller.
\<close>

theorem skipped_window_is_silent:
  assumes "window_skipped fit window df i" and "window \<le> i" and "i < length df"
  shows "rolling_loop fit window df [i] = []
       \<and> rolling_loop fit window df [window ..< length df] =
           rolling_loop fit window df [window ..< i] @ rolling_loop fit window df [Suc i ..< length df]
       \<and> (df = filtered df0 \<longrightarrow>
            calculate_rolling_betas fit window df0 =
              rolling_loop fit window df [window ..< i] @
              rolling_loop fit window df [Suc i ..< length df])"
proof -
  have one: "rolling_loop fit window df [i] = []"
    using assms(1) by (simp add: rolling_loop_concat loop_body_skipped)
  have "[window ..< length df] = [window ..< i] @ [i] @ [Suc i ..< length df]"
    using assms(2,3) by (metis append_Cons append_Nil le_add_diff_inverse less_imp_le_nat
        upt_add_eq_append upt_conv_Cons)
  then have range: "rolling_loop fit window df [window ..< length df] =
      rolling_loop fit window df [window ..< i] @ rolling_loop fit window df [Suc i ..< length df]"
    using one by (simp only: rolling_loop_append) simp
  have "calculate_rolling_betas fit window df0 =
          rolling_loop fit window df [window ..< i] @ rolling_loop fit window df [Suc i ..< length df]"
    if "df = filtered df0"
    using range that by (simp add: calculate_rolling_betas_def Let_def)
  with one range show ?thesis by blast
qed

text \<open>
  Three rows and a window of one row. A null in the first row: the window at index 1 is
  skipped by the null check (on a table that was not filtered). A text in the first row: the
  fit of the window at index 1 raises. In both cases the loop goes on with index 2.
\<close>

theorem skipped_window_is_silent_witness:
  "frame_isnull_any (window_X 1 (rows_with_null 3 0) 1)
   \<and> rolling_loop (OLS_fit zero_solver) 1 (rows_with_null 3 0) [1 ..< 3] =
       rolling_loop (OLS_fit zero_solver) 1 (rows_with_null 3 0) [2 ..< 3]
   \<and> isl (OLS_fit zero_solver (window_y 1 (rows_with_text 3 0) 1) (window_X 1 (rows_with_text 3 0) 1))
   \<and> calculate_rolling_betas (OLS_fit zero_solver) 1 (rows_with_text 3 0) =
       rolling_loop (OLS_fit zero_solver) 1 (rows_with_text 3 0) [2 ..< 3]"
proof -
  let ?nulls = "rows_with_null 3 0"
  let ?texts = "rows_with_text 3 0"
  have null: "frame_isnull_any (window_X 1 ?nulls 1)"
    by (rule null_in_window_skipped [where k = 0]) (simp_all add: rows_with_null_def sample_row_def)
  then have skip_null: "window_skipped (OLS_fit zero_solver) 1 ?nulls 1"
    by (simp add: window_skipped_def)
  have skip_text: "window_skipped (OLS_fit zero_solver) 1 ?texts 1"
    by (rule text_in_window_skipped [where k = 0]) (simp_all add: rows_with_text_def sample_row_def)
  have raised: "isl (OLS_fit zero_solver (window_y 1 ?texts 1) (window_X 1 ?texts 1))"
    using skip_text window_X_notnull [of 1 ?texts 1] window_y_notnull [of 1 ?texts 1]
    by (simp add: window_skipped_def filtered_rows_with_text)
  have len: "length ?nulls = 3" "length ?texts = 3"
    by (simp_all add: rows_with_null_def rows_with_text_def)
  have i: "(1::nat) \<le> 1" "1 < length ?nulls" "1 < length ?texts"
    by (simp_all add: len)
  have empty: "rolling_loop (OLS_fit zero_solver) 1 df [] = []" for df :: "merged_row list"
    by (simp add: rolling_loop_def)
  have nil: "[(1::nat) ..< 1] = []" by simp
  have idx: "[Suc 1 ..< 3] = [2 ..< 3]" by (simp only: Suc_1)
  have "rolling_loop (OLS_fit zero_solver) 1 ?nulls [1 ..< length ?nulls] =
        rolling_loop (OLS_fit zero_solver) 1 ?nulls [1 ..< 1] @
        rolling_loop (OLS_fit zero_solver) 1 ?nulls [Suc 1 ..< length ?nulls]"
    using skipped_window_is_silent [OF skip_null i(1,2)] by blast
  then have first: "rolling_loop (OLS_fit zero_solver) 1 ?nulls [1 ..< 3] =
      rolling_loop (OLS_fit zero_solver) 1 ?nulls [2 ..< 3]"
    by (simp only: len idx nil empty append_Nil)
  have "?texts = filtered ?texts \<longrightarrow>
        calculate_rolling_betas (OLS_fit zero_solver) 1 ?texts =
        rolling_loop (OLS_fit zero_solver) 1 ?texts [1 ..< 1] @
        rolling_loop (OLS_fit zero_solver) 1 ?texts [Suc 1 ..< length ?texts]"
    using skipped_window_is_silent [OF skip_text i(1,3)] by blast
  then have second: "calculate_rolling_betas (OLS_fit zero_solver) 1 ?texts =
      rolling_loop (OLS_fit zero_solver) 1 ?texts [2 ..< 3]"
    by (simp only: len idx nil empty append_Nil filtered_rows_with_text simp_thms)
  from null first raised second show ?thesis by blast
qed

subsection \<open>The dates of the points\<close>

text \<open>
  Claim C5, as amended. The dates of the points are the dates of the rows \<open>df[i]\<close> of the
  filtered table at the indices that were not skipped, in order; they are strictly increasing
  provided the dates of the filtered table are; and when a window was skipped the output has
  strictly fewer than \<open>length (filtered df0) - window\<close> points.
\<close>

theorem rolling_betas_dates:
  "map point_Date (calculate_rolling_betas fit window df0) =
     map (\<lambda>i. Date (filtered df0 ! i))
         (filter (\<lambda>i. \<not> window_skipped fit window (filtered df0) i) [window ..< length (filtered df0)])
   \<and> (sorted_wrt stamp_less (map Date (filtered df0)) \<longrightarrow>
        sorted_wrt stamp_less (map point_Date (calculate_rolling_betas fit window df0)))
   \<and> ((\<exists>i. window \<le> i \<and> i < length (filtered df0) \<and> window_skipped fit window (filtered df0) i) \<longrightarrow>
        length (calculate_rolling_betas fit window df0) < length (filtered df0) - window)"
proof -
  let ?df = "filtered df0"
  let ?out = "calculate_rolling_betas fit window df0"
  have out: "?out = rolling_loop fit window ?df [window ..< length ?df]"
    by (simp add: calculate_rolling_betas_def Let_def)
  have dates: "map point_Date ?out = map (\<lambda>i. Date (?df ! i))
      (filter (\<lambda>i. \<not> window_skipped fit window ?df i) [window ..< length ?df])"
    unfolding out by (rule dates_rolling_loop) simp
  have incr: "sorted_wrt stamp_less (map point_Date ?out)"
    if "sorted_wrt stamp_less (map Date ?df)"
    unfolding dates using that by (rule sorted_wrt_dates_filter) simp_all
  have len: "length ?out + length (filter (window_skipped fit window ?df) [window ..< length ?df])
               = length ?df - window"
    using length_rolling_loop [of "[window ..< length ?df]" ?df fit window] out by simp
  have fewer: "length ?out < length ?df - window"
    if "\<exists>i. window \<le> i \<and> i < length ?df \<and> window_skipped fit window ?df i"
  proof -
    from that obtain i where "i \<in> set [window ..< length ?df]" "window_skipped fit window ?df i"
      by auto
    then have "filter (window_skipped fit window ?df) [window ..< length ?df] \<noteq> []"
      by (auto simp: filter_empty_conv)
    then have "0 < length (filter (window_skipped fit window ?df) [window ..< length ?df])"
      by simp
    with len show ?thesis by linarith
  qed
  from dates incr fewer show ?thesis by blast
qed

text \<open>Four rows on consecutive days, the window at index 1 skipped: two points, dates increasing.\<close>

theorem rolling_betas_dates_witness:
  "sorted_wrt stamp_less (map Date (filtered (rows_with_text 4 0)))
   \<and> window_skipped (OLS_fit zero_solver) 1 (filtered (rows_with_text 4 0)) 1
   \<and> sorted_wrt stamp_less
        (map point_Date (calculate_rolling_betas (OLS_fit zero_solver) 1 (rows_with_text 4 0)))
   \<and> length (calculate_rolling_betas (OLS_fit zero_solver) 1 (rows_with_text 4 0)) < 3"
proof -
  let ?df = "rows_with_text 4 0"
  have sorted: "sorted_wrt stamp_less (map Date (filtered ?df))"
    by (simp only: filtered_rows_with_text dates_rows_with_text sorted_stamps_upt)
  have skip: "window_skipped (OLS_fit zero_solver) 1 (filtered ?df) 1"
    unfolding filtered_rows_with_text
    by (rule text_in_window_skipped [where k = 0]) (simp_all add: rows_with_text_def sample_row_def)
  have len: "length (filtered ?df) = 4"
    by (simp add: filtered_rows_with_text) (simp add: rows_with_text_def)
  have "\<exists>i. 1 \<le> i \<and> i < length (filtered ?df) \<and> window_skipped (OLS_fit zero_solver) 1 (filtered ?df) i"
    using skip len by (intro exI [of _ 1]) simp
  then have "sorted_wrt stamp_less (map point_Date (calculate_rolling_betas (OLS_fit zero_solver) 1 ?df))
      \<and> length (calculate_rolling_betas (OLS_fit zero_solver) 1 ?df) < length (filtered ?df) - 1"
    using rolling_betas_dates [of "OLS_fit zero_solver" 1 ?df] sorted by blast
  with sorted skip len show ?thesis by simp
qed

text \<open>
  Claim C5 as stated fails on a table that repeats its dates: the two points carry the
  same date.
\<close>

theorem rolling_betas_dates_counterexample:
  "map point_Date (calculate_rolling_betas (OLS_fit zero_solver) 180 (doubled_rows 182)) =
     [Stamp 90, Stamp 90]
   \<and> \<not> sorted_wrt stamp_less
         (map point_Date (calculate_rolling_betas (OLS_fit zero_solver) 180 (doubled_rows 182)))"
proof -
  let ?df = "doubled_rows 182"
  have len: "length ?df = 182" by (simp add: doubled_rows_def)
  have kept: "\<not> window_skipped (OLS_fit zero_solver) 180 ?df i" for i
    using fit_complete_not_skipped [of "OLS_fit zero_solver" 180 ?df i]
      fit_complete_numeric [OF numeric_doubled_rows, where window = 180 and i = i and n1 = 182]
    by (simp add: filtered_doubled_rows)
  have "map point_Date (rolling_loop (OLS_fit zero_solver) 180 ?df [180 ..< length ?df]) =
        map (\<lambda>i. Date (?df ! i))
            (filter (\<lambda>i. \<not> window_skipped (OLS_fit zero_solver) 180 ?df i) [180 ..< length ?df])"
    by (rule dates_rolling_loop) simp
  also have "\<dots> = map (\<lambda>i. Date (?df ! i)) [180 ..< length ?df]"
    using kept by simp
  also have "\<dots> = [Date (?df ! 180), Date (?df ! 181)]"
    by (simp add: len)
  also have "\<dots> = [Stamp 90, Stamp 90]"
    by (simp add: doubled_rows_def sample_row_def)
  finally have dates: "map point_Date (calculate_rolling_betas (OLS_fit zero_solver) 180 ?df) =
      [Stamp 90, Stamp 90]"
    by (simp add: calculate_rolling_betas_def Let_def filtered_doubled_rows)
  show ?thesis unfolding dates by simp
qed

subsection \<open>Two runs\<close>

text \<open>
  A pass of the loop reads the state of the library only through the result of the fit: in
  a set of states that the fit does not leave and in which it returns what a function \<open>f\<close>
  returns, the loop appends what the loop over \<open>f\<close> appends.
\<close>

lemma run_body_step:
  assumes "\<And>w y X. w \<in> S \<Longrightarrow> fst (fit w y X) = f y X \<and> snd (fit w y X) \<in> S" and "w \<in> S"
  shows "fst (run_body fit window df i (acc, w)) = loop_body f window df i acc"
    and "snd (run_body fit window df i (acc, w)) \<in> S"
proof -
  obtain r w' where fit: "fit w (window_y window df i) (window_X window df i) = (r, w')"
    by (cases "fit w (window_y window df i) (window_X window df i)")
  have r: "f (window_y window df i) (window_X window df i) = r" and w': "w' \<in> S"
    using assms(1) [OF assms(2), of "window_y window df i" "window_X window df i"] fit by simp_all
  show "fst (run_body fit window df i (acc, w)) = loop_body f window df i acc"
    using fit r
    by (cases r) (auto simp: run_body_def loop_body_def try_fit_def result_row_def)
  show "snd (run_body fit window df i (acc, w)) \<in> S"
    using fit w' assms(2) by (cases r) (auto simp: run_body_def)
qed

lemma run_fold:
  assumes "\<And>w y X. w \<in> S \<Longrightarrow> fst (fit w y X) = f y X \<and> snd (fit w y X) \<in> S" and "w \<in> S"
  shows "fst (fold (run_body fit window df) indices (acc, w)) = fold (loop_body f window df) indices acc"
  using assms(2)
proof (induction indices arbitrary: acc w)
  case Nil
  show ?case by simp
next
  case (Cons i indices)
  obtain acc' w' where step: "run_body fit window df i (acc, w) = (acc', w')"
    by (cases "run_body fit window df i (acc, w)")
  have "acc' = loop_body f window df i acc" and "w' \<in> S"
    using run_body_step [of S fit f w window df i acc, OF assms(1) Cons.prems] step by simp_all
  then show ?case using Cons.IH [of w' acc'] step by simp
qed

lemma run_rolling_betas_in:
  assumes "\<And>w y X. w \<in> S \<Longrightarrow> fst (fit w y X) = f y X \<and> snd (fit w y X) \<in> S" and "w \<in> S"
  shows "fst (run_rolling_betas fit window df w) = calculate_rolling_betas f window df"
  using run_fold [of S fit f w, OF assms]
  by (simp add: run_rolling_betas_def calculate_rolling_betas_def rolling_loop_def Let_def)

lemma daily_rows_points:
  "length (calculate_rolling_betas (OLS_fit zero_solver) window (daily_rows n)) = n - window"
proof -
  have "\<not> window_skipped (OLS_fit zero_solver) window (daily_rows n) i" for i
    using fit_complete_not_skipped [of "OLS_fit zero_solver" window "daily_rows n" i]
      fit_complete_numeric [OF numeric_daily_rows, of window n i]
    by (simp add: filtered_daily_rows)
  then have "filter (window_skipped (OLS_fit zero_solver) window (daily_rows n)) [window ..< n] = []"
    by simp
  moreover have len: "length (daily_rows n) = n"
    by (simp add: daily_rows_def)
  ultimately have "length (rolling_loop (OLS_fit zero_solver) window (daily_rows n) [window ..< n]) =
      n - window"
    using length_rolling_loop [of "[window ..< n]" "daily_rows n" "OLS_fit zero_solver" window]
    by simp
  then show ?thesis
    by (simp add: calculate_rolling_betas_def Let_def filtered_daily_rows len)
qed

text \<open>
  The state matters when the fit reads it: with the seeded fit a run that starts on an even
  seed returns 120 points on 300 rows, and a run that starts on an odd seed returns none.
\<close>

lemma seeded_fit_runs_differ:
  "length (fst (run_rolling_betas seeded_fit 180 (daily_rows 300) 0)) = 120
   \<and> fst (run_rolling_betas seeded_fit 180 (daily_rows 300) 1) = []"
proof -
  have "fst (run_rolling_betas seeded_fit 180 (daily_rows 300) 0) =
        calculate_rolling_betas (OLS_fit zero_solver) 180 (daily_rows 300)"
    by (rule run_rolling_betas_in [where S = "{seed. even seed}"]) (simp_all add: seeded_fit_def)
  then have even_seed: "length (fst (run_rolling_betas seeded_fit 180 (daily_rows 300) 0)) = 120"
    by (simp add: daily_rows_points)
  have "fst (run_rolling_betas seeded_fit 180 (daily_rows 300) 1) =
        calculate_rolling_betas (\<lambda>y X. Inl LinAlgError) 180 (daily_rows 300)"
    by (rule run_rolling_betas_in [where S = "{seed. odd seed}"]) (simp_all add: seeded_fit_def)
  also have "\<dots> = []"
    unfolding calculate_rolling_betas_def Let_def
    by (rule rolling_loop_all_skipped) (simp add: window_skipped_def)
  finally show ?thesis using even_seed by simp
qed



subsection \<open>The null check after the filter\<close>

text \<open>
  Claim C9. On the filtered table the null check of line 53 never holds, whatever the window
  and the index: a window is skipped exactly when the fit raises.
\<close>

theorem null_check_unreachable:
  "\<not> frame_isnull_any (window_X window (filtered df0) i)
   \<and> \<not> series_isnull_any (window_y window (filtered df0) i)
   \<and> (window_skipped fit window (filtered df0) i \<longleftrightarrow>
        isl (fit (window_y window (filtered df0) i) (window_X window (filtered df0) i)))"
  using window_X_notnull [of window df0 i] window_y_notnull [of window df0 i]
  by (simp add: window_skipped_def)

text \<open>A skipped window of a filtered table: no null in it, the fit raised.\<close>

theorem null_check_unreachable_witness:
  "\<not> frame_isnull_any (window_X 1 (filtered (rows_with_text 3 0)) 1)
   \<and> \<not> series_isnull_any (window_y 1 (filtered (rows_with_text 3 0)) 1)
   \<and> window_skipped (OLS_fit zero_solver) 1 (filtered (rows_with_text 3 0)) 1
   \<and> isl (OLS_fit zero_solver (window_y 1 (filtered (rows_with_text 3 0)) 1)
                               (window_X 1 (filtered (rows_with_text 3 0)) 1))"
proof -
  have "window_skipped (OLS_fit zero_solver) 1 (filtered (rows_with_text 3 0)) 1"
    unfolding filtered_rows_with_text
    by (rule text_in_window_skipped [where k = 0]) (simp_all add: rows_with_text_def sample_row_def)
  then show ?thesis
    using null_check_unreachable [of 1 "rows_with_text 3 0" 1 "OLS_fit zero_solver"] by blast
qed

section \<open>Properties of loading and merging\<close>

subsection \<open>Auxiliary facts\<close>

lemma those_map_eq_Some:
  "those (map f xs) = Some ys \<longleftrightarrow> map f xs = map Some ys"
proof (induction xs arbitrary: ys)
  case Nil
  show ?case by auto
next
  case (Cons x xs)
  show ?case
  proof (cases "f x")
    case None
    then show ?thesis by (cases ys) auto
  next
    case (Some y)
    then show ?thesis using Cons.IH by (cases ys) (auto split: option.splits)
  qed
qed

lemma those_map_eq_None:
  "those (map f xs) = None \<longleftrightarrow> (\<exists>x\<in>set xs. f x = None)"
  by (induction xs) (auto split: option.splits)

lemma to_datetime_Inl:
  "to_datetime parse_date col = Inl e \<longleftrightarrow>
     e = ParseError \<and> (\<exists>c\<in>set col. parse_date col c = None)"
proof -
  have "to_datetime parse_date col = Inl e \<longleftrightarrow>
        e = ParseError \<and> those (map (parse_date col) col) = None"
    by (auto simp: to_datetime_def split: option.splits)
  then show ?thesis by (simp add: those_map_eq_None)
qed

lemma to_datetime_Inr:
  "to_datetime parse_date col = Inr dates \<longleftrightarrow> map (parse_date col) col = map Some dates"
proof -
  have "to_datetime parse_date col = Inr dates \<longleftrightarrow>
        those (map (parse_date col) col) = Some dates"
    by (auto simp: to_datetime_def split: option.splits)
  then show ?thesis by (simp add: those_map_eq_Some)
qed

lemma to_datetime_length:
  "to_datetime parse_date col = Inr dates \<Longrightarrow> length dates = length col"
  unfolding to_datetime_Inr by (metis length_map)

lemma and_then_Inr:
  "and_then r f = Inr v \<longleftrightarrow> (\<exists>u. r = Inr u \<and> f u = Inr v)"
  by (cases r) (simp_all add: and_then_def)

lemma and_then_Inl:
  "and_then r f = Inl e \<longleftrightarrow> r = Inl e \<or> (\<exists>u. r = Inr u \<and> f u = Inl e)"
  by (cases r) (simp_all add: and_then_def)

text \<open>Inner join.\<close>

lemma set_merge_inner:
  "set (merge_inner left right) =
     {join_row d g m | d g m. (d, g) \<in> set left \<and> (d, m) \<in> set right}"
proof -
  have "r \<in> set (merge_inner left right) \<longleftrightarrow>
        (\<exists>d g m. r = join_row d g m \<and> (d, g) \<in> set left \<and> (d, m) \<in> set right)" for r
    unfolding merge_inner_def by force
  then show ?thesis by blast
qed

lemma filter_key_distinct:
  assumes "distinct (map fst right)"
  shows "length (filter (\<lambda>(d', m). d' = d) right) = (if d \<in> fst ` set right then 1 else 0)"
  using assms
proof (induction right)
  case Nil
  show ?case by simp
next
  case (Cons p right)
  then show ?case by (cases p) (auto simp: image_iff)
qed

lemma dates_merge_inner:
  assumes "distinct (map fst right)"
  shows "map Date (merge_inner left right) = filter (\<lambda>d. d \<in> fst ` set right) (map fst left)"
proof (induction left)
  case Nil
  show ?case by (simp add: merge_inner_def)
next
  case (Cons p left)
  obtain d g where p: "p = (d, g)" by (cases p)
  have one: "map Date (map (\<lambda>(d', m). join_row d g m) (filter (\<lambda>(d', m). d' = d) right)) =
        (if d \<in> fst ` set right then [d] else [])"
  proof -
    have "map Date (map (\<lambda>(d', m). join_row d g m) (filter (\<lambda>(d', m). d' = d) right)) =
          replicate (length (filter (\<lambda>(d', m). d' = d) right)) d"
      by (auto simp: map_replicate_const [symmetric] join_row_def intro!: map_cong)
    then show ?thesis using filter_key_distinct [OF assms, of d] by simp
  qed
  have "merge_inner (p # left) right =
        map (\<lambda>(d', m). join_row d g m) (filter (\<lambda>(d', m). d' = d) right) @ merge_inner left right"
    by (simp add: merge_inner_def p)
  then show ?case using one Cons.IH by (simp add: p)
qed

lemma length_sort_values: "length (sort_values df) = length df"
  by (simp add: sort_values_def)

lemma set_sort_values: "set (sort_values df) = set df"
  by (simp add: sort_values_def)

lemma sorted_sort_values: "sorted (map (\<lambda>r. na_last (Date r)) (sort_values df))"
  by (simp add: sort_values_def)

lemma Date_coerce_numeric: "map Date (coerce_numeric parse_float df) = map Date df"
  by (simp add: coerce_numeric_def coerce_row_def)

lemma length_coerce_numeric: "length (coerce_numeric parse_float df) = length df"
  by (simp add: coerce_numeric_def)

lemma to_numeric_not_text: "\<not> is_text (to_numeric parse_float c)"
  by (cases c) (simp_all split: option.splits)

lemma coerced_not_text:
  assumes "r \<in> set (coerce_numeric parse_float df)"
  shows "\<not> is_text (Gold_Returns r)" "\<not> is_text (Silver_Returns r)"
    "\<not> is_text (DXY r)" "\<not> is_text (US10Y_Yield r)"
  using assms by (auto simp: coerce_numeric_def coerce_row_def to_numeric_not_text)

lemma coerced_columns_no_text:
  "\<not> list_ex is_text (map Gold_Returns (coerce_numeric parse_float df))"
  "\<not> list_ex is_text (map Silver_Returns (coerce_numeric parse_float df))"
  "\<not> list_ex is_text (map DXY (coerce_numeric parse_float df))"
  "\<not> list_ex is_text (map US10Y_Yield (coerce_numeric parse_float df))"
  by (auto simp: list_ex_iff dest: coerced_not_text)

lemma all_or_error_map_Inr: "all_or_error (map Inr vs) = Inr vs"
  by (induction vs) simp_all

lemma all_or_error_Inr:
  "all_or_error rs = Inr vs \<longleftrightarrow> rs = map Inr vs"
proof
  show "all_or_error rs = Inr vs \<Longrightarrow> rs = map Inr vs"
  proof (induction rs arbitrary: vs)
    case Nil
    then show ?case by simp
  next
    case (Cons r rs)
    then show ?case by (cases r) (auto split: sum.splits)
  qed
  show "rs = map Inr vs \<Longrightarrow> all_or_error rs = Inr vs"
    by (simp add: all_or_error_map_Inr)
qed

lemma all_or_error_Inl:
  "all_or_error rs = Inl e \<Longrightarrow> Inl e \<in> set rs"
proof (induction rs)
  case Nil
  then show ?case by simp
next
  case (Cons r rs)
  then show ?case by (cases r) (auto split: sum.splits)
qed


lemma cell_truediv_Inl: "cell_truediv x y = Inl e \<Longrightarrow> e = TypeError"
  by (auto simp: cell_truediv_def split: if_splits cell.splits)

lemma cell_truediv_text:
  "cell_truediv x y = Inl e \<Longrightarrow> is_text x \<or> is_text y"
  by (auto simp: cell_truediv_def split: if_splits cell.splits)

lemma object_truediv_Inr: "object_truediv x y = Inr v \<Longrightarrow> cell_truediv x y = Inr v"
  by (auto simp: object_truediv_def cell_truediv_def split: if_splits cell.splits)

lemma object_truediv_Inl:
  "object_truediv x y = Inl e \<Longrightarrow> e = TypeError \<or> e = ZeroDivisionError"
  by (auto simp: object_truediv_def cell_truediv_def split: if_splits cell.splits)


lemma all_or_error_map2_Inr:
  assumes "all_or_error (map2 f xs ys) = Inr ratio" and "length xs = length ys"
  shows "length ratio = length xs"
    and "i < length xs \<Longrightarrow> f (xs ! i) (ys ! i) = Inr (ratio ! i)"
proof -
  have eq: "map2 f xs ys = map Inr ratio"
    using assms(1) by (simp add: all_or_error_Inr)
  show len: "length ratio = length xs"
    using arg_cong [OF eq, of length] assms(2) by simp
  show "f (xs ! i) (ys ! i) = Inr (ratio ! i)" if "i < length xs"
    using arg_cong [OF eq, of "\<lambda>l. l ! i"] that assms(2) len by simp
qed

lemma all_or_error_map2_Inl:
  assumes "all_or_error (map2 f xs ys) = Inl e"
  shows "\<exists>p\<in>set (zip xs ys). f (fst p) (snd p) = Inl e"
proof -
  have "Inl e \<in> set (map2 f xs ys)"
    using assms by (rule all_or_error_Inl)
  then have "Inl e \<in> (\<lambda>p. f (fst p) (snd p)) ` set (zip xs ys)"
    by (simp add: case_prod_beta)
  then obtain p where "p \<in> set (zip xs ys)" "Inl e = f (fst p) (snd p)"
    by (rule imageE)
  then show ?thesis by (intro bexI [of _ p]) simp_all
qed


lemma series_truediv_Inr:
  assumes "series_truediv refuses float_dtype xs ys = Inr ratio" and "length xs = length ys"
  shows "length ratio = length xs"
    and "i < length xs \<Longrightarrow> cell_truediv (xs ! i) (ys ! i) = Inr (ratio ! i)"
proof -
  show "length ratio = length xs"
    using assms all_or_error_map2_Inr(1) [of cell_truediv xs ys ratio]
      all_or_error_map2_Inr(1) [of object_truediv xs ys ratio]
    by (simp add: series_truediv_def split: if_splits refusal.splits)
  show "cell_truediv (xs ! i) (ys ! i) = Inr (ratio ! i)" if "i < length xs"
  proof (cases float_dtype)
    case True
    then show ?thesis
      using assms that all_or_error_map2_Inr(2) [of cell_truediv xs ys ratio i]
      by (simp add: series_truediv_def)
  next
    case False
    then have "all_or_error (map2 object_truediv xs ys) = Inr ratio"
      using assms(1) by (simp add: series_truediv_def split: refusal.splits)
    then have "object_truediv (xs ! i) (ys ! i) = Inr (ratio ! i)"
      using assms(2) that by (rule all_or_error_map2_Inr(2))
    then show ?thesis by (rule object_truediv_Inr)
  qed
qed

lemma series_truediv_Inl:
  assumes "series_truediv refuses float_dtype xs ys = Inl e"
  shows "e = TypeError \<or> e = ZeroDivisionError"
    and "float_dtype \<Longrightarrow> \<exists>p\<in>set (zip xs ys). cell_truediv (fst p) (snd p) = Inl TypeError"
proof -
  show "\<exists>p\<in>set (zip xs ys). cell_truediv (fst p) (snd p) = Inl TypeError" if float_dtype
  proof -
    have "all_or_error (map2 cell_truediv xs ys) = Inl e"
      using assms that by (simp add: series_truediv_def)
    then obtain p where p: "p \<in> set (zip xs ys)" "cell_truediv (fst p) (snd p) = Inl e"
      using all_or_error_map2_Inl by blast
    then have "e = TypeError" by (simp add: cell_truediv_Inl)
    with p show ?thesis by blast
  qed
  show "e = TypeError \<or> e = ZeroDivisionError"
  proof (cases float_dtype)
    case True
    have "all_or_error (map2 cell_truediv xs ys) = Inl e"
      using assms True by (simp add: series_truediv_def)
    then obtain p where "cell_truediv (fst p) (snd p) = Inl e"
      using all_or_error_map2_Inl by blast
    then show ?thesis by (simp add: cell_truediv_Inl)
  next
    case False
    show ?thesis
    proof (cases "refuses xs ys")
      case Accepts
      then have "all_or_error (map2 object_truediv xs ys) = Inl e"
        using assms False by (simp add: series_truediv_def)
      then obtain p where "object_truediv (fst p) (snd p) = Inl e"
        using all_or_error_map2_Inl by blast
      then show ?thesis by (rule object_truediv_Inl)
    next
      case RaisesTypeError
      then show ?thesis using assms False by (simp add: series_truediv_def)
    next
      case RaisesZeroDivisionError
      then show ?thesis using assms False by (simp add: series_truediv_def)
    qed
  qed
qed


text \<open>The derived columns of a coerced table.\<close>

lemma add_derived_coerced:
  assumes "df = coerce_numeric parse_float df0"
  shows "add_derived refuses float_prices df =
     and_then (series_truediv refuses float_prices (map Gold_Close df) (map Silver_Close df))
       (\<lambda>ratio. Inr (map (derived_row df ratio) [0 ..< length df]))"
proof -
  have no_text: "\<not> list_ex is_text (map Gold_Returns df)" "\<not> list_ex is_text (map Silver_Returns df)"
    "\<not> list_ex is_text (map DXY df)" "\<not> list_ex is_text (map US10Y_Yield df)"
    unfolding assms by (rule coerced_columns_no_text)+
  show ?thesis
    unfolding add_derived_def rolling_std_def rolling_corr_def
    using no_text
    by (cases "series_truediv refuses float_prices (map Gold_Close df) (map Silver_Close df)")
       (simp_all add: and_then_def derived_row_def)
qed

lemma load_data_unfold:
  "load_data refuses parse_date parse_float gold_silver macro =
     and_then (to_datetime parse_date (map gs_Date gold_silver)) (\<lambda>gs_dates.
     and_then (to_datetime parse_date (map macro_Date macro)) (\<lambda>macro_dates.
     and_then (series_truediv refuses (price_columns_float gold_silver)
                 (map Gold_Close (merged_table parse_float gs_dates gold_silver macro_dates macro))
                 (map Silver_Close (merged_table parse_float gs_dates gold_silver macro_dates macro)))
       (\<lambda>ratio. Inr (map (derived_row (merged_table parse_float gs_dates gold_silver macro_dates macro) ratio)
                  [0 ..< length (merged_table parse_float gs_dates gold_silver macro_dates macro)]))))"
proof -
  have "add_derived refuses (price_columns_float gold_silver)
          (merged_table parse_float gs_dates gold_silver macro_dates macro) =
        and_then (series_truediv refuses (price_columns_float gold_silver)
                 (map Gold_Close (merged_table parse_float gs_dates gold_silver macro_dates macro))
                 (map Silver_Close (merged_table parse_float gs_dates gold_silver macro_dates macro)))
       (\<lambda>ratio. Inr (map (derived_row (merged_table parse_float gs_dates gold_silver macro_dates macro) ratio)
                  [0 ..< length (merged_table parse_float gs_dates gold_silver macro_dates macro)]))"
    for gs_dates macro_dates
    by (rule add_derived_coerced [OF merged_table_def])
  then show ?thesis by (simp add: load_data_def merged_table_def)
qed

lemma load_data_Inr:
  "load_data refuses parse_date parse_float gold_silver macro = Inr out \<longleftrightarrow>
     (\<exists>gs_dates macro_dates ratio.
        to_datetime parse_date (map gs_Date gold_silver) = Inr gs_dates \<and>
        to_datetime parse_date (map macro_Date macro) = Inr macro_dates \<and>
        series_truediv refuses (price_columns_float gold_silver) (map Gold_Close (merged_table parse_float gs_dates gold_silver macro_dates macro))
                       (map Silver_Close (merged_table parse_float gs_dates gold_silver macro_dates macro))
          = Inr ratio \<and>
        out = map (derived_row (merged_table parse_float gs_dates gold_silver macro_dates macro) ratio)
                  [0 ..< length (merged_table parse_float gs_dates gold_silver macro_dates macro)])"
  unfolding load_data_unfold and_then_Inr by auto

lemma load_data_Inl:
  "load_data refuses parse_date parse_float gold_silver macro = Inl e \<longleftrightarrow>
     to_datetime parse_date (map gs_Date gold_silver) = Inl e \<or>
     (\<exists>gs_dates. to_datetime parse_date (map gs_Date gold_silver) = Inr gs_dates \<and>
        (to_datetime parse_date (map macro_Date macro) = Inl e \<or>
         (\<exists>macro_dates. to_datetime parse_date (map macro_Date macro) = Inr macro_dates \<and>
            series_truediv refuses (price_columns_float gold_silver) (map Gold_Close (merged_table parse_float gs_dates gold_silver macro_dates macro))
                           (map Silver_Close (merged_table parse_float gs_dates gold_silver macro_dates macro))
              = Inl e)))"
  unfolding load_data_unfold and_then_Inl by auto

lemma derived_row_columns:
  shows "Date (derived_row df ratio i) = Date (df ! i)"
    "Gold_Close (derived_row df ratio i) = Gold_Close (df ! i)"
    "Silver_Close (derived_row df ratio i) = Silver_Close (df ! i)"
    "Gold_Returns (derived_row df ratio i) = Gold_Returns (df ! i)"
    "Silver_Returns (derived_row df ratio i) = Silver_Returns (df ! i)"
    "India_CPI (derived_row df ratio i) = India_CPI (df ! i)"
    "DXY (derived_row df ratio i) = DXY (df ! i)"
    "US10Y_Yield (derived_row df ratio i) = US10Y_Yield (df ! i)"
    "GoogleTrends_Gold (derived_row df ratio i) = GoogleTrends_Gold (df ! i)"
    "GoogleTrends_Silver (derived_row df ratio i) = GoogleTrends_Silver (df ! i)"
  by (simp_all add: derived_row_def with_derived_def)

lemma map_nth_upt: "map (\<lambda>i. f (xs ! i)) [0 ..< length xs] = map f xs"
  by (rule nth_equalityI) simp_all

lemma derived_columns:
  assumes "out = map (derived_row df ratio) [0 ..< length df]"
  shows "length out = length df"
    "map Date out = map Date df"
    "map Gold_Close out = map Gold_Close df"
    "map Silver_Close out = map Silver_Close df"
    "map Gold_Returns out = map Gold_Returns df"
    "map Silver_Returns out = map Silver_Returns df"
    "map DXY out = map DXY df"
    "map US10Y_Yield out = map US10Y_Yield df"
  unfolding assms by (simp_all add: o_def derived_row_columns map_nth_upt)

lemma coerce_row_columns:
  "Date (coerce_row parse_float r) = Date r"
  "Gold_Close (coerce_row parse_float r) = Gold_Close r"
  "Silver_Close (coerce_row parse_float r) = Silver_Close r"
  "Gold_Returns (coerce_row parse_float r) = to_numeric parse_float (Gold_Returns r)"
  "Silver_Returns (coerce_row parse_float r) = to_numeric parse_float (Silver_Returns r)"
  "India_CPI (coerce_row parse_float r) = India_CPI r"
  "DXY (coerce_row parse_float r) = to_numeric parse_float (DXY r)"
  "US10Y_Yield (coerce_row parse_float r) = to_numeric parse_float (US10Y_Yield r)"
  "GoogleTrends_Gold (coerce_row parse_float r) = GoogleTrends_Gold r"
  "GoogleTrends_Silver (coerce_row parse_float r) = GoogleTrends_Silver r"
  by (simp_all add: coerce_row_def)

lemma join_row_columns:
  "Date (join_row d g m) = d"
  "Gold_Close (join_row d g m) = gs_Gold_Price g"
  "Silver_Close (join_row d g m) = gs_Silver_Price g"
  "Gold_Returns (join_row d g m) = gs_Gold_Returns g"
  "Silver_Returns (join_row d g m) = gs_Silver_Returns g"
  "India_CPI (join_row d g m) = macro_India_CPI m"
  "DXY (join_row d g m) = macro_DXY m"
  "US10Y_Yield (join_row d g m) = macro_US10Y_Yield m"
  "GoogleTrends_Gold (join_row d g m) = macro_GoogleTrends_Gold m"
  "GoogleTrends_Silver (join_row d g m) = macro_GoogleTrends_Silver m"
  by (simp_all add: join_row_def)

lemma set_merged_table:
  "set (merged_table parse_float gs_dates gold_silver macro_dates macro) =
     {coerce_row parse_float (join_row d g m) | d g m.
        (d, g) \<in> set (zip gs_dates gold_silver) \<and> (d, m) \<in> set (zip macro_dates macro)}"
  unfolding merged_table_def coerce_numeric_def
  by (auto simp: set_sort_values set_merge_inner)

lemma zip_to_datetime:
  assumes "to_datetime parse_date (map f rows) = Inr dates"
  shows "(d, r) \<in> set (zip dates rows) \<longleftrightarrow> r \<in> set rows \<and> parse_date (map f rows) (f r) = Some d"
proof -
  have eq: "map (parse_date (map f rows)) (map f rows) = map Some dates"
    using assms by (simp add: to_datetime_Inr)
  then have len: "length dates = length rows"
    by (metis length_map)
  have nth: "parse_date (map f rows) (f (rows ! k)) = Some (dates ! k)" if "k < length rows" for k
  proof -
    have "map (parse_date (map f rows)) (map f rows) ! k = map Some dates ! k"
      using eq by simp
    then show ?thesis using that len by simp
  qed
  show ?thesis
  proof
    assume "(d, r) \<in> set (zip dates rows)"
    then obtain k where "k < length rows" "dates ! k = d" "rows ! k = r"
      using len by (auto simp: set_zip)
    then show "r \<in> set rows \<and> parse_date (map f rows) (f r) = Some d"
      using nth [of k] by auto
  next
    assume "r \<in> set rows \<and> parse_date (map f rows) (f r) = Some d"
    then obtain k where "k < length rows" "rows ! k = r" "parse_date (map f rows) (f r) = Some d"
      by (auto simp: in_set_conv_nth)
    then have "dates ! k = d" using nth [of k] by simp
    then show "(d, r) \<in> set (zip dates rows)"
      using \<open>k < length rows\<close> \<open>rows ! k = r\<close> len by (auto simp: set_zip)
  qed
qed

text \<open>Where a row of the result comes from.\<close>

lemma load_data_rows:
  assumes "load_data refuses parse_date parse_float gold_silver macro = Inr out"
  shows "r \<in> set out \<Longrightarrow>
           \<exists>g\<in>set gold_silver. \<exists>m\<in>set macro.
             parse_date (map gs_Date gold_silver) (gs_Date g) = Some (Date r) \<and>
             parse_date (map macro_Date macro) (macro_Date m) = Some (Date r) \<and>
             Gold_Close r = gs_Gold_Price g \<and> Silver_Close r = gs_Silver_Price g \<and>
             Gold_Returns r = to_numeric parse_float (gs_Gold_Returns g) \<and>
             Silver_Returns r = to_numeric parse_float (gs_Silver_Returns g) \<and>
             India_CPI r = macro_India_CPI m \<and>
             DXY r = to_numeric parse_float (macro_DXY m) \<and>
             US10Y_Yield r = to_numeric parse_float (macro_US10Y_Yield m) \<and>
             GoogleTrends_Gold r = macro_GoogleTrends_Gold m \<and>
             GoogleTrends_Silver r = macro_GoogleTrends_Silver m"
    and "g \<in> set gold_silver \<Longrightarrow> m \<in> set macro \<Longrightarrow>
         parse_date (map gs_Date gold_silver) (gs_Date g) = Some d \<Longrightarrow>
         parse_date (map macro_Date macro) (macro_Date m) = Some d \<Longrightarrow>
           \<exists>r\<in>set out. Date r = d \<and>
             Gold_Close r = gs_Gold_Price g \<and> Silver_Close r = gs_Silver_Price g \<and>
             Gold_Returns r = to_numeric parse_float (gs_Gold_Returns g) \<and>
             Silver_Returns r = to_numeric parse_float (gs_Silver_Returns g) \<and>
             India_CPI r = macro_India_CPI m \<and>
             DXY r = to_numeric parse_float (macro_DXY m) \<and>
             US10Y_Yield r = to_numeric parse_float (macro_US10Y_Yield m) \<and>
             GoogleTrends_Gold r = macro_GoogleTrends_Gold m \<and>
             GoogleTrends_Silver r = macro_GoogleTrends_Silver m"
proof -
  from assms obtain gs_dates macro_dates ratio where
    gd: "to_datetime parse_date (map gs_Date gold_silver) = Inr gs_dates" and
    md: "to_datetime parse_date (map macro_Date macro) = Inr macro_dates" and
    out: "out = map (derived_row (merged_table parse_float gs_dates gold_silver macro_dates macro) ratio)
                  [0 ..< length (merged_table parse_float gs_dates gold_silver macro_dates macro)]"
    unfolding load_data_Inr by blast
  let ?df = "merged_table parse_float gs_dates gold_silver macro_dates macro"
  {
    assume "r \<in> set out"
    then obtain i where i: "i < length ?df" "r = derived_row ?df ratio i"
      unfolding out by auto
    have "?df ! i \<in> set ?df" using i(1) by simp
    then obtain d g m where dgm: "(d, g) \<in> set (zip gs_dates gold_silver)"
      "(d, m) \<in> set (zip macro_dates macro)" "?df ! i = coerce_row parse_float (join_row d g m)"
      unfolding set_merged_table by blast
    have "g \<in> set gold_silver" "parse_date (map gs_Date gold_silver) (gs_Date g) = Some d"
      "m \<in> set macro" "parse_date (map macro_Date macro) (macro_Date m) = Some d"
      using dgm(1,2) zip_to_datetime [OF gd] zip_to_datetime [OF md] by auto
    then show "\<exists>g\<in>set gold_silver. \<exists>m\<in>set macro.
             parse_date (map gs_Date gold_silver) (gs_Date g) = Some (Date r) \<and>
             parse_date (map macro_Date macro) (macro_Date m) = Some (Date r) \<and>
             Gold_Close r = gs_Gold_Price g \<and> Silver_Close r = gs_Silver_Price g \<and>
             Gold_Returns r = to_numeric parse_float (gs_Gold_Returns g) \<and>
             Silver_Returns r = to_numeric parse_float (gs_Silver_Returns g) \<and>
             India_CPI r = macro_India_CPI m \<and>
             DXY r = to_numeric parse_float (macro_DXY m) \<and>
             US10Y_Yield r = to_numeric parse_float (macro_US10Y_Yield m) \<and>
             GoogleTrends_Gold r = macro_GoogleTrends_Gold m \<and>
             GoogleTrends_Silver r = macro_GoogleTrends_Silver m"
      using i(2) dgm(3)
      by (intro bexI [of _ g] bexI [of _ m])
         (simp_all add: derived_row_columns coerce_row_columns join_row_columns)
  }
  {
    assume "g \<in> set gold_silver" "m \<in> set macro"
      "parse_date (map gs_Date gold_silver) (gs_Date g) = Some d"
      "parse_date (map macro_Date macro) (macro_Date m) = Some d"
    then have "coerce_row parse_float (join_row d g m) \<in> set ?df"
      unfolding set_merged_table using zip_to_datetime [OF gd] zip_to_datetime [OF md] by blast
    then obtain i where i: "i < length ?df" "?df ! i = coerce_row parse_float (join_row d g m)"
      by (auto simp: in_set_conv_nth)
    then have "derived_row ?df ratio i \<in> set out"
      unfolding out by simp
    then show "\<exists>r\<in>set out. Date r = d \<and>
             Gold_Close r = gs_Gold_Price g \<and> Silver_Close r = gs_Silver_Price g \<and>
             Gold_Returns r = to_numeric parse_float (gs_Gold_Returns g) \<and>
             Silver_Returns r = to_numeric parse_float (gs_Silver_Returns g) \<and>
             India_CPI r = macro_India_CPI m \<and>
             DXY r = to_numeric parse_float (macro_DXY m) \<and>
             US10Y_Yield r = to_numeric parse_float (macro_US10Y_Yield m) \<and>
             GoogleTrends_Gold r = macro_GoogleTrends_Gold m \<and>
             GoogleTrends_Silver r = macro_GoogleTrends_Silver m"
      using i(2)
      by (intro bexI [of _ "derived_row ?df ratio i"])
         (simp_all add: derived_row_columns coerce_row_columns join_row_columns)
  }
qed

lemma set_zip_map2: "set (zip (map f xs) (map g xs)) = (\<lambda>x. (f x, g x)) ` set xs"
  by (induction xs) auto

lemma price_pair_in_table:
  assumes "p \<in> set (zip (map Gold_Close (merged_table parse_float gs_dates gold_silver macro_dates macro))
                        (map Silver_Close (merged_table parse_float gs_dates gold_silver macro_dates macro)))"
  shows "\<exists>g\<in>set gold_silver. p = (gs_Gold_Price g, gs_Silver_Price g)"
proof -
  from assms obtain r where r: "r \<in> set (merged_table parse_float gs_dates gold_silver macro_dates macro)"
    "p = (Gold_Close r, Silver_Close r)"
    unfolding set_zip_map2 by blast
  then obtain d g m where "(d, g) \<in> set (zip gs_dates gold_silver)"
    "r = coerce_row parse_float (join_row d g m)"
    unfolding set_merged_table by blast
  then have "g \<in> set gold_silver" "p = (gs_Gold_Price g, gs_Silver_Price g)"
    using r(2) by (auto simp: coerce_row_columns join_row_columns dest: set_zip_rightD)
  then show ?thesis by blast
qed

text \<open>The errors of \<open>load_data\<close>.\<close>

lemma load_data_ParseError:
  "load_data refuses parse_date parse_float gold_silver macro = Inl ParseError \<longleftrightarrow>
     (\<exists>c\<in>set (map gs_Date gold_silver). parse_date (map gs_Date gold_silver) c = None) \<or>
     (\<exists>c\<in>set (map macro_Date macro). parse_date (map macro_Date macro) c = None)"
proof -
  have no_parse: "series_truediv refuses float_dtype xs ys \<noteq> Inl ParseError" for float_dtype xs ys
    using series_truediv_Inl(1) [of refuses float_dtype xs ys ParseError] by auto
  have cases: "(\<exists>c\<in>set col. parse_date col c = None) \<or> (\<exists>dates. to_datetime parse_date col = Inr dates)" for col
    by (cases "to_datetime parse_date col") (auto simp: to_datetime_Inl)
  have excl: "\<not> ((\<exists>c\<in>set col. parse_date col c = None) \<and> to_datetime parse_date col = Inr dates)" for col dates
    using to_datetime_Inl [of parse_date col ParseError] by auto
  show ?thesis
    unfolding load_data_Inl to_datetime_Inl
    using no_parse cases [of "map gs_Date gold_silver"] excl [of "map gs_Date gold_silver"]
    by blast
qed

text \<open>The coercion leaves the two price columns as they are.\<close>

lemma price_columns_merged_table:
  "map Gold_Close (merged_table parse_float gs_dates gold_silver macro_dates macro) =
     map Gold_Close (sort_values (merge_inner (zip gs_dates gold_silver) (zip macro_dates macro)))"
  "map Silver_Close (merged_table parse_float gs_dates gold_silver macro_dates macro) =
     map Silver_Close (sort_values (merge_inner (zip gs_dates gold_silver) (zip macro_dates macro)))"
  by (simp_all add: merged_table_def coerce_numeric_def coerce_row_def)



lemma float_prices_divide:
  assumes "price_columns_float gold_silver"
    and "p \<in> set (zip (map Gold_Close (merged_table parse_float gs_dates gold_silver macro_dates macro))
                      (map Silver_Close (merged_table parse_float gs_dates gold_silver macro_dates macro)))"
  shows "cell_truediv (fst p) (snd p) \<noteq> Inl e"
proof
  assume fails: "cell_truediv (fst p) (snd p) = Inl e"
  obtain g where g: "g \<in> set gold_silver" "p = (gs_Gold_Price g, gs_Silver_Price g)"
    using price_pair_in_table [OF assms(2)] by blast
  have "is_text (gs_Gold_Price g) \<or> is_text (gs_Silver_Price g)"
    using cell_truediv_text [OF fails] g(2) by simp
  then have "list_ex is_text (map gs_Gold_Price gold_silver) \<or>
             list_ex is_text (map gs_Silver_Price gold_silver)"
    using g(1) by (auto simp: list_ex_iff)
  then show False using assms(1) by (simp add: price_columns_float_def float_column_def)
qed

lemma load_data_other_error:
  assumes "load_data refuses parse_date parse_float gold_silver macro = Inl e" and "e \<noteq> ParseError"
  shows "e = TypeError \<or> e = ZeroDivisionError"
    and "\<not> price_columns_float gold_silver"
    and "\<exists>gs_dates macro_dates.
           to_datetime parse_date (map gs_Date gold_silver) = Inr gs_dates \<and>
           to_datetime parse_date (map macro_Date macro) = Inr macro_dates \<and>
           series_truediv refuses False
             (map Gold_Close (sort_values (merge_inner (zip gs_dates gold_silver) (zip macro_dates macro))))
             (map Silver_Close (sort_values (merge_inner (zip gs_dates gold_silver) (zip macro_dates macro))))
             = Inl e"
proof -
  from assms obtain gs_dates macro_dates where
    dates: "to_datetime parse_date (map gs_Date gold_silver) = Inr gs_dates"
      "to_datetime parse_date (map macro_Date macro) = Inr macro_dates" and
    div: "series_truediv refuses (price_columns_float gold_silver)
            (map Gold_Close (merged_table parse_float gs_dates gold_silver macro_dates macro))
            (map Silver_Close (merged_table parse_float gs_dates gold_silver macro_dates macro)) = Inl e"
    unfolding load_data_Inl to_datetime_Inl by blast
  show "e = TypeError \<or> e = ZeroDivisionError"
    using div by (rule series_truediv_Inl(1))
  show object: "\<not> price_columns_float gold_silver"
    using series_truediv_Inl(2) [OF div] float_prices_divide by blast
  show "\<exists>gs_dates macro_dates.
           to_datetime parse_date (map gs_Date gold_silver) = Inr gs_dates \<and>
           to_datetime parse_date (map macro_Date macro) = Inr macro_dates \<and>
           series_truediv refuses False
             (map Gold_Close (sort_values (merge_inner (zip gs_dates gold_silver) (zip macro_dates macro))))
             (map Silver_Close (sort_values (merge_inner (zip gs_dates gold_silver) (zip macro_dates macro))))
             = Inl e"
    using dates div object unfolding price_columns_merged_table by auto
qed


lemma load_data_succeeds:
  assumes "\<forall>c\<in>set (map gs_Date gold_silver). parse_date (map gs_Date gold_silver) c \<noteq> None"
    and "\<forall>c\<in>set (map macro_Date macro). parse_date (map macro_Date macro) c \<noteq> None"
    and "price_columns_float gold_silver"
  shows "\<not> isl (load_data refuses parse_date parse_float gold_silver macro)"
proof
  assume "isl (load_data refuses parse_date parse_float gold_silver macro)"
  then obtain e where e: "load_data refuses parse_date parse_float gold_silver macro = Inl e"
    by (auto simp: isl_def)
  show False
  proof (cases "e = ParseError")
    case True
    then show ?thesis using e assms(1,2) load_data_ParseError by blast
  next
    case False
    then show ?thesis using load_data_other_error(2) [OF e] assms(3) by blast
  qed
qed

lemma map_insort_key:
  "map f (insort_key (\<lambda>x. k (f x)) x xs) = insort_key k (f x) (map f xs)"
  by (induction xs) simp_all

lemma map_sort_key:
  "map f (sort_key (\<lambda>x. k (f x)) xs) = sort_key k (map f xs)"
  by (induction xs) (simp_all add: map_insort_key)

lemma dates_merged_table:
  assumes "distinct macro_dates" and "length gs_dates = length gold_silver"
    and "length macro_dates = length macro"
  shows "map Date (merged_table parse_float gs_dates gold_silver macro_dates macro) =
         sort_key na_last (filter (\<lambda>d. d \<in> set macro_dates) gs_dates)"
proof -
  have "map Date (merge_inner (zip gs_dates gold_silver) (zip macro_dates macro)) =
        filter (\<lambda>d. d \<in> set macro_dates) gs_dates"
    using dates_merge_inner [of "zip macro_dates macro" "zip gs_dates gold_silver"] assms
    by (simp add: map_fst_zip flip: set_map)
  then show ?thesis
    unfolding merged_table_def Date_coerce_numeric sort_values_def
    by (simp add: map_sort_key [of Date na_last])
qed

lemma inj_na_last: "inj na_last"
proof (rule injI)
  fix a b assume "na_last a = na_last b"
  then show "a = b" by (cases a; cases b) simp_all
qed

lemma na_last_less:
  assumes "na_last a < na_last b" and "b \<noteq> NaT"
  shows "stamp_less a b"
  using assms by (cases a; cases b) simp_all

lemma load_data_dates:
  assumes "load_data refuses parse_date parse_float gold_silver macro = Inr out"
    and "to_datetime parse_date (map gs_Date gold_silver) = Inr gs_dates"
    and "to_datetime parse_date (map macro_Date macro) = Inr macro_dates"
    and "distinct macro_dates"
  shows "map Date out = sort_key na_last (filter (\<lambda>d. d \<in> set macro_dates) gs_dates)"
proof -
  from assms(1) obtain ratio where
    "out = map (derived_row (merged_table parse_float gs_dates gold_silver macro_dates macro) ratio)
               [0 ..< length (merged_table parse_float gs_dates gold_silver macro_dates macro)]"
    unfolding load_data_Inr using assms(2,3) by auto
  then have "map Date out = map Date (merged_table parse_float gs_dates gold_silver macro_dates macro)"
    by (rule derived_columns(2))
  then show ?thesis
    using dates_merged_table [OF assms(4)] to_datetime_length [OF assms(2)] to_datetime_length [OF assms(3)]
    by simp
qed

lemma strictly_sorted_stamps:
  assumes "distinct ds" and "NaT \<notin> set ds"
  shows "sorted_wrt stamp_less (sort_key na_last ds)"
proof -
  have "sorted (map na_last (sort_key na_last ds))" by simp
  moreover have "distinct (map na_last (sort_key na_last ds))"
    using assms(1) inj_na_last by (simp add: distinct_map inj_on_def inj_def)
  ultimately have "sorted_wrt (<) (map na_last (sort_key na_last ds))"
    by (simp add: strict_sorted_iff)
  then have "sorted_wrt (\<lambda>a b. na_last a < na_last b) (sort_key na_last ds)"
    by (simp add: sorted_wrt_map)
  then show ?thesis
  proof (rule sorted_wrt_mono_rel [rotated])
    fix a b assume "a \<in> set (sort_key na_last ds)" "b \<in> set (sort_key na_last ds)"
      "na_last a < na_last b"
    then show "stamp_less a b" using assms(2) by (intro na_last_less) auto
  qed
qed

lemma isl_projr: "\<not> isl x \<Longrightarrow> x = Inr (projr x)"
  by (cases x) simp_all

lemma to_datetime_price_sheet:
  "to_datetime day_number (map gs_Date (price_sheet n gp gr)) = Inr (map (\<lambda>k. Stamp (int k)) [0 ..< n])"
  by (simp add: to_datetime_Inr price_sheet_def o_def)

lemma to_datetime_macro_sheet:
  "to_datetime day_number (map macro_Date (macro_sheet n cpi)) = Inr (map (\<lambda>k. Stamp (int k)) [0 ..< n])"
  by (simp add: to_datetime_Inr macro_sheet_def o_def)

lemma load_sheets_ok:
  "0 < n \<Longrightarrow>
   \<not> isl (load_data refuses day_number parse_float (price_sheet n (Float a) gr) (macro_sheet k cpi))"
  by (rule load_data_succeeds)
     (auto simp: price_sheet_def macro_sheet_def price_columns_float_def float_column_def list_ex_iff)

lemma load_rev_sheets_ok:
  "0 < n \<Longrightarrow>
   \<not> isl (load_data refuses day_number parse_float (rev (price_sheet n (Float a) gr)) (macro_sheet k cpi))"
  by (rule load_data_succeeds)
     (auto simp: price_sheet_def macro_sheet_def price_columns_float_def float_column_def list_ex_iff)



























subsection \<open>The inner join and its order\<close>

text \<open>
  Claim C3. For sheets whose parsed dates have no duplicates, the merged table has one row
  for each date present in both sheets: its length is the number of common dates, hence at
  most the length of either sheet. Its dates are strictly increasing when the sheets do not
  both hold a row without a date (pandas joins two \<^verbatim>\<open>NaT\<close> keys and sorts that row last).
\<close>

theorem merge_count_and_order:
  assumes "load_data refuses parse_date parse_float gold_silver macro = Inr out"
    and "to_datetime parse_date (map gs_Date gold_silver) = Inr gs_dates"
    and "to_datetime parse_date (map macro_Date macro) = Inr macro_dates"
    and "distinct gs_dates" and "distinct macro_dates"
  shows "set (map Date out) = set gs_dates \<inter> set macro_dates
       \<and> length out = card (set gs_dates \<inter> set macro_dates)
       \<and> length out \<le> min (length gold_silver) (length macro)
       \<and> (NaT \<notin> set gs_dates \<inter> set macro_dates \<longrightarrow>
            (\<forall>i j. i < j \<and> j < length out \<longrightarrow> stamp_less (Date (out ! i)) (Date (out ! j))))"
proof -
  let ?common = "filter (\<lambda>d. d \<in> set macro_dates) gs_dates"
  have dates: "map Date out = sort_key na_last ?common"
    using assms(1,2,3,5) by (rule load_data_dates)
  have set_common: "set ?common = set gs_dates \<inter> set macro_dates" by auto
  have dist: "distinct ?common" using assms(4) by simp
  have len: "length out = length ?common"
    using dates by (metis length_map length_sort)
  have card: "length ?common = card (set gs_dates \<inter> set macro_dates)"
    using distinct_card [OF dist] set_common by simp
  have "card (set gs_dates \<inter> set macro_dates) \<le> card (set macro_dates)"
    by (intro card_mono) simp_all
  also have "\<dots> \<le> length macro_dates" by (rule card_length)
  finally have le_macro: "length out \<le> length macro"
    using len card to_datetime_length [OF assms(3)] by simp
  have le_gs: "length out \<le> length gold_silver"
    using len to_datetime_length [OF assms(2)] length_filter_le [of _ gs_dates] by simp
  have order: "\<forall>i j. i < j \<and> j < length out \<longrightarrow> stamp_less (Date (out ! i)) (Date (out ! j))"
    if "NaT \<notin> set gs_dates \<inter> set macro_dates"
  proof -
    have "sorted_wrt stamp_less (map Date out)"
      unfolding dates using dist that set_common by (intro strictly_sorted_stamps) auto
    then show ?thesis
      using sorted_wrt_nth_less [of stamp_less "map Date out"] by auto
  qed
  have "set (map Date out) = set gs_dates \<inter> set macro_dates"
    unfolding dates using set_common by simp
  with len card le_macro le_gs order show ?thesis by simp
qed

text \<open>Three price rows in reverse order and two macro rows: two common days, in order.\<close>

theorem merge_count_and_order_witness:
  "to_datetime day_number (map gs_Date (rev (price_sheet 3 (Float (Finite 1900)) (Float (Finite 2)))))
     = Inr [Stamp 2, Stamp 1, Stamp 0]
   \<and> to_datetime day_number (map macro_Date (macro_sheet 2 (Float (Finite 5)))) = Inr [Stamp 0, Stamp 1]
   \<and> length (projr (load_data never_refuses day_number inf_only
                 (rev (price_sheet 3 (Float (Finite 1900)) (Float (Finite 2))))
                 (macro_sheet 2 (Float (Finite 5))))) = 2
   \<and> stamp_less
        (Date (projr (load_data never_refuses day_number inf_only
                 (rev (price_sheet 3 (Float (Finite 1900)) (Float (Finite 2))))
                 (macro_sheet 2 (Float (Finite 5)))) ! 0))
        (Date (projr (load_data never_refuses day_number inf_only
                 (rev (price_sheet 3 (Float (Finite 1900)) (Float (Finite 2))))
                 (macro_sheet 2 (Float (Finite 5)))) ! 1))"
proof -
  let ?gs = "rev (price_sheet 3 (Float (Finite 1900)) (Float (Finite 2)))"
  let ?macro = "macro_sheet 2 (Float (Finite 5))"
  let ?out = "projr (load_data never_refuses day_number inf_only ?gs ?macro)"
  have gd: "to_datetime day_number (map gs_Date ?gs) = Inr [Stamp 2, Stamp 1, Stamp 0]"
    by (simp add: to_datetime_Inr price_sheet_def upt_rec)
  have md: "to_datetime day_number (map macro_Date ?macro) = Inr [Stamp 0, Stamp 1]"
    by (simp add: to_datetime_Inr macro_sheet_def upt_rec)
  have ok: "load_data never_refuses day_number inf_only ?gs ?macro = Inr ?out"
    by (rule isl_projr, rule load_rev_sheets_ok) simp
  have card: "card (set [Stamp 2, Stamp 1, Stamp 0] \<inter> set [Stamp 0, Stamp 1]) = 2"
    by simp
  have "length ?out = card (set [Stamp 2, Stamp 1, Stamp 0] \<inter> set [Stamp 0, Stamp 1])
      \<and> (\<forall>i j. i < j \<and> j < length ?out \<longrightarrow> stamp_less (Date (?out ! i)) (Date (?out ! j)))"
    using merge_count_and_order [OF ok gd md] by simp
  then have "length ?out = 2 \<and> stamp_less (Date (?out ! 0)) (Date (?out ! 1))"
    unfolding card by simp
  with gd md show ?thesis by blast
qed

subsection \<open>The rolling columns\<close>




subsection \<open>The ratio column\<close>

text \<open>
  Claim C6. In every row of the merged table \<open>Gold_Silver_Ratio\<close> is the quotient of
  \<open>Gold_Close\<close> by \<open>Silver_Close\<close> of that row; it is null when \<open>Silver_Close\<close> is null.
\<close>

theorem gold_silver_ratio_exact:
  assumes "load_data refuses parse_date parse_float gold_silver macro = Inr out" and "i < length out"
  shows "cell_truediv (Gold_Close (out ! i)) (Silver_Close (out ! i)) = Inr (Gold_Silver_Ratio (out ! i))
       \<and> (isnull (Silver_Close (out ! i)) \<longrightarrow> Gold_Silver_Ratio (out ! i) = Float NaN)
       \<and> (\<forall>a b. Gold_Close (out ! i) = Float a \<and> Silver_Close (out ! i) = Float b \<longrightarrow>
                Gold_Silver_Ratio (out ! i) = Float (fdiv a b))"
proof -
  from assms(1) obtain gs_dates macro_dates ratio where
    ratio: "series_truediv refuses (price_columns_float gold_silver) (map Gold_Close (merged_table parse_float gs_dates gold_silver macro_dates macro))
                           (map Silver_Close (merged_table parse_float gs_dates gold_silver macro_dates macro))
              = Inr ratio" and
    out: "out = map (derived_row (merged_table parse_float gs_dates gold_silver macro_dates macro) ratio)
                  [0 ..< length (merged_table parse_float gs_dates gold_silver macro_dates macro)]"
    unfolding load_data_Inr by blast
  let ?df = "merged_table parse_float gs_dates gold_silver macro_dates macro"
  have i: "i < length ?df" using assms(2) out by simp
  have row: "out ! i = derived_row ?df ratio i" using i out by simp
  have "cell_truediv (map Gold_Close ?df ! i) (map Silver_Close ?df ! i) = Inr (ratio ! i)"
    using series_truediv_Inr(2) [OF ratio, of i] i by simp
  then have div: "cell_truediv (Gold_Close (out ! i)) (Silver_Close (out ! i)) =
      Inr (Gold_Silver_Ratio (out ! i))"
    using i by (simp add: row derived_row_columns) (simp add: derived_row_def with_derived_def)
  have null: "Gold_Silver_Ratio (out ! i) = Float NaN" if "isnull (Silver_Close (out ! i))"
    using div that by (simp add: cell_truediv_def)
  have floats: "Gold_Silver_Ratio (out ! i) = Float (fdiv a b)"
    if "Gold_Close (out ! i) = Float a \<and> Silver_Close (out ! i) = Float b" for a b
  proof (cases "isnull (Float a) \<or> isnull (Float b)")
    case True
    then have "fdiv a b = NaN" by (cases a; cases b) simp_all
    then show ?thesis using div that True by (simp add: cell_truediv_def)
  next
    case False
    then show ?thesis using div that by (simp add: cell_truediv_def)
  qed
  from div null floats show ?thesis by blast
qed

text \<open>Gold at 1900 and silver at 24: the ratio of the first row is \<open>1900 / 24\<close>.\<close>

theorem gold_silver_ratio_exact_witness:
  "0 < length (projr (load_data never_refuses day_number inf_only
                 (price_sheet 2 (Float (Finite 1900)) (Float (Finite 2))) (macro_sheet 2 (Float (Finite 5)))))
   \<and> Gold_Silver_Ratio (projr (load_data never_refuses day_number inf_only
                 (price_sheet 2 (Float (Finite 1900)) (Float (Finite 2))) (macro_sheet 2 (Float (Finite 5)))) ! 0)
       = Float (Finite (1900 / 24))"
proof -
  let ?gs = "price_sheet 2 (Float (Finite 1900)) (Float (Finite 2))"
  let ?macro = "macro_sheet 2 (Float (Finite 5))"
  let ?out = "projr (load_data never_refuses day_number inf_only ?gs ?macro)"
  have ok: "load_data never_refuses day_number inf_only ?gs ?macro = Inr ?out"
    by (rule isl_projr, rule load_sheets_ok) simp
  have "map Date ?out = sort_key na_last (filter (\<lambda>d. d \<in> set (map (\<lambda>k. Stamp (int k)) [0 ..< 2]))
                                                 (map (\<lambda>k. Stamp (int k)) [0 ..< 2]))"
    using load_data_dates [OF ok to_datetime_price_sheet to_datetime_macro_sheet]
    by (simp add: distinct_map inj_on_def)
  then have "length (map Date ?out) = 2" by simp
  then have len: "0 < length ?out" by simp
  then have "?out ! 0 \<in> set ?out" by simp
  then obtain g where "g \<in> set ?gs" "Gold_Close (?out ! 0) = gs_Gold_Price g"
    "Silver_Close (?out ! 0) = gs_Silver_Price g"
    using load_data_rows(1) [OF ok] by blast
  then have prices: "Gold_Close (?out ! 0) = Float (Finite 1900) \<and> Silver_Close (?out ! 0) = Float (Finite 24)"
    by (auto simp: price_sheet_def)
  then have "Gold_Silver_Ratio (?out ! 0) = Float (fdiv (Finite 1900) (Finite 24))"
    using gold_silver_ratio_exact [OF ok len] by blast
  with len show ?thesis by simp
qed

subsection \<open>Errors and coercion\<close>



subsection \<open>The columns that are not coerced\<close>

text \<open>
  Claim C10. Only \<open>Gold_Returns\<close>, \<open>Silver_Returns\<close>, \<open>DXY\<close> and \<open>US10Y_Yield\<close> are coerced,
  and hold no text in the result. \<open>India_CPI\<close>, \<open>GoogleTrends_Gold\<close> and
  \<open>GoogleTrends_Silver\<close> hold the values of the macro sheet as they are, for every pair of
  rows that the join matches: a text there stays a text.
\<close>

theorem uncoerced_columns_kept:
  assumes "load_data refuses parse_date parse_float gold_silver macro = Inr out"
  shows "(\<forall>r\<in>set out. \<exists>g\<in>set gold_silver. \<exists>m\<in>set macro.
            India_CPI r = macro_India_CPI m \<and>
            GoogleTrends_Gold r = macro_GoogleTrends_Gold m \<and>
            GoogleTrends_Silver r = macro_GoogleTrends_Silver m \<and>
            Gold_Returns r = to_numeric parse_float (gs_Gold_Returns g) \<and>
            Silver_Returns r = to_numeric parse_float (gs_Silver_Returns g) \<and>
            DXY r = to_numeric parse_float (macro_DXY m) \<and>
            US10Y_Yield r = to_numeric parse_float (macro_US10Y_Yield m))
       \<and> (\<forall>g\<in>set gold_silver. \<forall>m\<in>set macro. \<forall>d.
            parse_date (map gs_Date gold_silver) (gs_Date g) = Some d \<and>
            parse_date (map macro_Date macro) (macro_Date m) = Some d \<longrightarrow>
              (\<exists>r\<in>set out. Date r = d \<and>
                 India_CPI r = macro_India_CPI m \<and>
                 GoogleTrends_Gold r = macro_GoogleTrends_Gold m \<and>
                 GoogleTrends_Silver r = macro_GoogleTrends_Silver m))
       \<and> (\<forall>r\<in>set out. \<not> is_text (Gold_Returns r) \<and> \<not> is_text (Silver_Returns r) \<and>
                        \<not> is_text (DXY r) \<and> \<not> is_text (US10Y_Yield r))"
proof -
  have a: "\<exists>g\<in>set gold_silver. \<exists>m\<in>set macro.
            India_CPI r = macro_India_CPI m \<and>
            GoogleTrends_Gold r = macro_GoogleTrends_Gold m \<and>
            GoogleTrends_Silver r = macro_GoogleTrends_Silver m \<and>
            Gold_Returns r = to_numeric parse_float (gs_Gold_Returns g) \<and>
            Silver_Returns r = to_numeric parse_float (gs_Silver_Returns g) \<and>
            DXY r = to_numeric parse_float (macro_DXY m) \<and>
            US10Y_Yield r = to_numeric parse_float (macro_US10Y_Yield m)"
    if "r \<in> set out" for r
    using load_data_rows(1) [OF assms that] by blast
  have b: "\<exists>r\<in>set out. Date r = d \<and>
                 India_CPI r = macro_India_CPI m \<and>
                 GoogleTrends_Gold r = macro_GoogleTrends_Gold m \<and>
                 GoogleTrends_Silver r = macro_GoogleTrends_Silver m"
    if "g \<in> set gold_silver" "m \<in> set macro"
      "parse_date (map gs_Date gold_silver) (gs_Date g) = Some d \<and>
       parse_date (map macro_Date macro) (macro_Date m) = Some d" for g m d
    using load_data_rows(2) [OF assms that(1,2), of d] that(3) by blast
  have c: "\<not> is_text (Gold_Returns r) \<and> \<not> is_text (Silver_Returns r) \<and>
           \<not> is_text (DXY r) \<and> \<not> is_text (US10Y_Yield r)" if "r \<in> set out" for r
    using a [OF that] by (auto simp: to_numeric_not_text)
  from a b c show ?thesis by blast
qed

text \<open>A text in \<^verbatim>\<open>India_CPI\<close> of the macro sheet is in the merged table.\<close>

theorem uncoerced_columns_kept_witness:
  "\<not> isl (load_data never_refuses day_number inf_only (price_sheet 1 (Float (Finite 1900)) (Float (Finite 2)))
              (macro_sheet 1 (Text ''7,2'')))
   \<and> list_ex (\<lambda>r. India_CPI r = Text ''7,2'')
        (projr (load_data never_refuses day_number inf_only (price_sheet 1 (Float (Finite 1900)) (Float (Finite 2)))
              (macro_sheet 1 (Text ''7,2''))))
   \<and> list_all (\<lambda>r. India_CPI r = Text ''7,2'')
        (projr (load_data never_refuses day_number inf_only (price_sheet 1 (Float (Finite 1900)) (Float (Finite 2)))
              (macro_sheet 1 (Text ''7,2''))))"
proof -
  let ?gs = "price_sheet 1 (Float (Finite 1900)) (Float (Finite 2))"
  let ?macro = "macro_sheet 1 (Text ''7,2'')"
  let ?out = "projr (load_data never_refuses day_number inf_only ?gs ?macro)"
  have ok: "load_data never_refuses day_number inf_only ?gs ?macro = Inr ?out"
    by (rule isl_projr, rule load_sheets_ok) simp
  note kept = uncoerced_columns_kept [OF ok]
  have "\<forall>r\<in>set ?out. \<exists>m\<in>set ?macro. India_CPI r = macro_India_CPI m"
    using kept by blast
  then have all: "\<forall>r\<in>set ?out. India_CPI r = Text ''7,2''"
    by (auto simp: macro_sheet_def)
  have "\<forall>g\<in>set ?gs. \<forall>m\<in>set ?macro. \<forall>d.
            day_number (map gs_Date ?gs) (gs_Date g) = Some d \<and>
            day_number (map macro_Date ?macro) (macro_Date m) = Some d \<longrightarrow>
              (\<exists>r\<in>set ?out. India_CPI r = macro_India_CPI m)"
    using kept by blast
  then have "\<exists>r\<in>set ?out. India_CPI r = Text ''7,2''"
    by (simp add: price_sheet_def macro_sheet_def)
  with all load_sheets_ok show ?thesis by (simp add: list_all_iff list_ex_iff)
qed

end
